theory Spec2Isabelle
  imports Complex_Main "HOL-Library.AList" "HOL-Library.Multiset"
begin

section \<open>Constants and block types\<close>

text \<open>
  The embedding follows \<^verbatim>\<open>src/game.js\<close>. JavaScript numbers are modelled as
  \<^typ>\<open>real\<close> where the code computes with fractions (positions, velocities, noise)
  and as \<^typ>\<open>int\<close> where it counts (loop indices, chunk and cell coordinates,
  inventory counts). Arithmetic is exact: the rounding of double precision is not
  modelled. \<^verbatim>\<open>Math.floor\<close> is \<^const>\<open>floor\<close>.
\<close>

definition CHUNK_SIZE :: int where
  "CHUNK_SIZE = 16"

definition CHUNK_HEIGHT :: int where
  "CHUNK_HEIGHT = 64"

definition RENDER_DISTANCE :: int where
  "RENDER_DISTANCE = 4"

text \<open>\<^verbatim>\<open>BLOCK_TYPES\<close>: the six numeric codes 0..5, in this order.\<close>

datatype block_type = AIR | DIRT | GRASS | STONE | WOOD | LEAVES

definition playerHeight :: real where
  "playerHeight = 1.8"

definition playerWidth :: real where
  "playerWidth = 0.3"

definition gravity :: real where
  "gravity = 30"

definition walkSpeed :: real where
  "walkSpeed = 5"

definition runSpeed :: real where
  "runSpeed = 8"

section \<open>The voxel store\<close>

text \<open>
  \<^verbatim>\<open>worldData\<close> is a JavaScript \<^verbatim>\<open>Map\<close> from the string
  \<^verbatim>\<open>"x,y,z"\<close> of three floored coordinates to a block type. The string of three
  integers determines the integers, so the key is modelled as the triple itself. The
  code only ever calls \<^verbatim>\<open>get\<close>, \<^verbatim>\<open>set\<close> and \<^verbatim>\<open>delete\<close> on it.
\<close>

type_synonym cell = "int \<times> int \<times> int"

type_synonym world = "cell \<rightharpoonup> block_type"

definition getBlockKey :: "real \<Rightarrow> real \<Rightarrow> real \<Rightarrow> cell" where
  "getBlockKey x y z = (\<lfloor>x\<rfloor>, \<lfloor>y\<rfloor>, \<lfloor>z\<rfloor>)"

text \<open>
  \<^verbatim>\<open>this.worldData.get(key) || BLOCK_TYPES.AIR\<close>: a missing key gives
  \<^verbatim>\<open>undefined\<close>, and both \<^verbatim>\<open>undefined\<close> and the code 0 are falsy.
\<close>

definition getBlock :: "world \<Rightarrow> real \<Rightarrow> real \<Rightarrow> real \<Rightarrow> block_type" where
  "getBlock w x y z =
     (case w (getBlockKey x y z) of
        None \<Rightarrow> AIR
      | Some t \<Rightarrow> (if t = AIR then AIR else t))"

definition setBlock :: "world \<Rightarrow> real \<Rightarrow> real \<Rightarrow> real \<Rightarrow> block_type \<Rightarrow> world" where
  "setBlock w x y z type =
     (let key = getBlockKey (of_int \<lfloor>x\<rfloor>) (of_int \<lfloor>y\<rfloor>) (of_int \<lfloor>z\<rfloor>)
      in if type = AIR then w(key := None) else w(key \<mapsto> type))"

text \<open>A sequence of \<^verbatim>\<open>setBlock\<close> calls, each with its coordinates and type.\<close>

fun setBlocks :: "(real \<times> real \<times> real \<times> block_type) list \<Rightarrow> world \<Rightarrow> world" where
  "setBlocks [] w = w"
| "setBlocks ((x, y, z, type) # calls) w = setBlocks calls (setBlock w x y z type)"

section \<open>Inventory\<close>

text \<open>
  \<^verbatim>\<open>inventory\<close> is an object with one numeric property per non-AIR block type.
  Reading a property that is not there gives \<^verbatim>\<open>undefined\<close> (\<open>None\<close>);
  \<^verbatim>\<open>undefined + n\<close> is \<^verbatim>\<open>NaN\<close>, and every comparison with
  \<^verbatim>\<open>undefined\<close> or \<^verbatim>\<open>NaN\<close> is false.
\<close>

datatype jsnum = Num int | NaN

type_synonym inventory = "block_type \<rightharpoonup> jsnum"

definition initialInventory :: inventory where
  "initialInventory =
     [DIRT \<mapsto> Num 0, GRASS \<mapsto> Num 0, STONE \<mapsto> Num 0, WOOD \<mapsto> Num 0, LEAVES \<mapsto> Num 0]"

definition addToInventory :: "inventory \<Rightarrow> block_type \<Rightarrow> int \<Rightarrow> inventory" where
  "addToInventory ivt blockType cnt =
     ivt(blockType \<mapsto> (case ivt blockType of Some (Num k) \<Rightarrow> Num (k + cnt) | _ \<Rightarrow> NaN))"

text \<open>The result pairs the returned boolean with the inventory after the call.\<close>

definition removeFromInventory :: "inventory \<Rightarrow> block_type \<Rightarrow> int \<Rightarrow> bool \<times> inventory" where
  "removeFromInventory ivt blockType cnt =
     (case ivt blockType of
        Some (Num k) \<Rightarrow>
          (if k \<ge> cnt then (True, ivt(blockType \<mapsto> Num (k - cnt))) else (False, ivt))
      | _ \<Rightarrow> (False, ivt))"

datatype inventory_op = Add block_type int | Remove block_type int

fun applyInventoryOp :: "inventory_op \<Rightarrow> inventory \<Rightarrow> inventory" where
  "applyInventoryOp (Add t n) ivt = addToInventory ivt t n"
| "applyInventoryOp (Remove t n) ivt = snd (removeFromInventory ivt t n)"

fun opAmountOk :: "inventory_op \<Rightarrow> bool" where
  "opAmountOk (Add t n) = (0 \<le> n)"
| "opAmountOk (Remove t n) = True"

text \<open>Every numeric count of the inventory, over the six block types, is non-negative.\<close>

definition countsNonNegative :: "inventory \<Rightarrow> bool" where
  "countsNonNegative ivt =
     list_all (\<lambda>t. case ivt t of Some (Num k) \<Rightarrow> 0 \<le> k | _ \<Rightarrow> True)
       [AIR, DIRT, GRASS, STONE, WOOD, LEAVES]"

section \<open>Terrain and tree generation\<close>

text \<open>
  \<^verbatim>\<open>this.noise2D\<close> is the function that \<^verbatim>\<open>createNoise2D()\<close> of the
  simplex-noise package returns. The package is not part of the repository, so the noise
  function is a parameter of everything that samples it.
\<close>

type_synonym noise = "real \<Rightarrow> real \<Rightarrow> real"

definition generateHeight :: "noise \<Rightarrow> int \<Rightarrow> int \<Rightarrow> int" where
  "generateHeight noise2D x z =
     (let scale1 = 0.015;
          scale2 = 0.04;
          height0 = 0;
          height1 = height0 + noise2D (of_int x * scale1) (of_int z * scale1) * 4;
          height2 = height1 + noise2D (of_int x * scale2) (of_int z * scale2) * 2
      in \<lfloor>height2 + 10\<rfloor>)"

text \<open>The remainder operator \<^verbatim>\<open>%\<close> of JavaScript truncates: the sign is the dividend's.\<close>

definition jsRem :: "int \<Rightarrow> int \<Rightarrow> int" where
  "jsRem a b = sgn a * (\<bar>a\<bar> mod \<bar>b\<bar>)"

definition shouldPlaceTree :: "noise \<Rightarrow> int \<Rightarrow> int \<Rightarrow> bool" where
  "shouldPlaceTree noise2D x z =
     (let treeNoise = noise2D (of_int x * 0.3 + 100) (of_int z * 0.3 + 100);
          spacing = noise2D (of_int x * 0.1) (of_int z * 0.1)
      in treeNoise > 0.6 \<and> spacing > 0.3 \<and> jsRem x 7 = 0 \<and> jsRem z 7 = 0)"

definition trunkHeightAt :: "noise \<Rightarrow> int \<Rightarrow> int \<Rightarrow> int" where
  "trunkHeightAt noise2D x z = 4 + \<lfloor>noise2D (of_int x * 10) (of_int z * 10) * 2 + 1\<rfloor>"

text \<open>The body of the innermost leaf loop, with its two \<^verbatim>\<open>continue\<close> guards.\<close>

definition placeLeaf :: "int \<Rightarrow> int \<Rightarrow> int \<Rightarrow> int \<Rightarrow> int \<Rightarrow> int \<Rightarrow> int \<Rightarrow> int \<Rightarrow> world \<Rightarrow> world" where
  "placeLeaf x y z trunkHeight ly radius lx lz w =
     (if \<bar>lx\<bar> = radius \<and> \<bar>lz\<bar> = radius then w
      else if lx = 0 \<and> lz = 0 \<and> ly < y + trunkHeight then w
      else setBlock w (of_int (x + lx)) (of_int ly) (of_int (z + lz)) LEAVES)"

definition leafLayer :: "int \<Rightarrow> int \<Rightarrow> int \<Rightarrow> int \<Rightarrow> int \<Rightarrow> world \<Rightarrow> world" where
  "leafLayer x y z trunkHeight ly w =
     (let radius = (if ly < y + trunkHeight then 2 else 1)
      in fold (\<lambda>lx. fold (placeLeaf x y z trunkHeight ly radius lx) [- radius..radius])
           [- radius..radius] w)"

definition generateTree :: "noise \<Rightarrow> world \<Rightarrow> int \<Rightarrow> int \<Rightarrow> int \<Rightarrow> world" where
  "generateTree noise2D w x y z =
     (let trunkHeight = trunkHeightAt noise2D x z;
          w1 = fold (\<lambda>i w. setBlock w (of_int x) (of_int (y + i)) (of_int z) WOOD)
                 [0..trunkHeight - 1] w;
          leafStart = y + trunkHeight - 2
      in fold (leafLayer x y z trunkHeight) [leafStart..y + trunkHeight + 2 - 1] w1)"

text \<open>The \<^verbatim>\<open>if\<close> chain that picks the type of a strata block.\<close>

definition strataType :: "int \<Rightarrow> int \<Rightarrow> block_type" where
  "strataType y height =
     (if y = height then GRASS else if y > height - 3 then DIRT else STONE)"

text \<open>The loop \<^verbatim>\<open>for (let y = 0; y <= height; y++)\<close> of one column.\<close>

definition writeStrata :: "int \<Rightarrow> int \<Rightarrow> int \<Rightarrow> world \<Rightarrow> world" where
  "writeStrata worldX worldZ height w =
     fold (\<lambda>y w. setBlock w (of_int worldX) (of_int y) (of_int worldZ) (strataType y height))
       [0..height] w"

text \<open>The body of the two column loops of \<^verbatim>\<open>generateChunkData\<close>.\<close>

definition generateColumn :: "noise \<Rightarrow> int \<Rightarrow> int \<Rightarrow> world \<Rightarrow> world" where
  "generateColumn noise2D worldX worldZ w =
     (let height = generateHeight noise2D worldX worldZ;
          w1 = writeStrata worldX worldZ height w
      in if shouldPlaceTree noise2D worldX worldZ \<and> height > 5
         then generateTree noise2D w1 worldX (height + 1) worldZ
         else w1)"

definition generateChunkData :: "noise \<Rightarrow> int \<Rightarrow> int \<Rightarrow> world \<Rightarrow> world" where
  "generateChunkData noise2D chunkX chunkZ w =
     (let startX = chunkX * CHUNK_SIZE;
          startZ = chunkZ * CHUNK_SIZE
      in fold (\<lambda>x. fold (\<lambda>z. generateColumn noise2D (startX + x) (startZ + z))
                     [0..CHUNK_SIZE - 1])
           [0..CHUNK_SIZE - 1] w)"

text \<open>
  The tree shape in the words of the specification, for a tree rooted at \<open>(x, y, z)\<close>
  with trunk height \<open>t\<close>: the trunk cells, and the cells of the leaf layers.
\<close>

definition spec_trunk_cell :: "int \<Rightarrow> int \<Rightarrow> int \<Rightarrow> int \<Rightarrow> cell \<Rightarrow> bool" where
  "spec_trunk_cell x y z t c =
     (case c of (cx, cy, cz) \<Rightarrow> cx = x \<and> cz = z \<and> y \<le> cy \<and> cy < y + t)"

definition spec_leaf_cell :: "int \<Rightarrow> int \<Rightarrow> int \<Rightarrow> int \<Rightarrow> cell \<Rightarrow> bool" where
  "spec_leaf_cell x y z t c =
     (case c of (cx, cy, cz) \<Rightarrow>
        (let radius = (if cy < y + t then 2 else 1); lx = cx - x; lz = cz - z
         in y + t - 2 \<le> cy \<and> cy < y + t + 2
            \<and> \<bar>lx\<bar> \<le> radius \<and> \<bar>lz\<bar> \<le> radius
            \<and> \<not> (\<bar>lx\<bar> = radius \<and> \<bar>lz\<bar> = radius)
            \<and> \<not> (lx = 0 \<and> lz = 0 \<and> cy < y + t)))"

text \<open>The strata type in the words of the specification.\<close>

definition spec_strata_type :: "int \<Rightarrow> int \<Rightarrow> block_type" where
  "spec_strata_type y height =
     (if y = height then GRASS else if height - 3 < y \<and> y < height then DIRT else STONE)"

text \<open>The value a strata cell may hold once its column has been generated.\<close>

definition strata_or_leaves :: "noise \<Rightarrow> cell \<Rightarrow> block_type option \<Rightarrow> bool" where
  "strata_or_leaves noise2D c v =
     (case c of (cx, cy, cz) \<Rightarrow>
        v = Some (strataType cy (generateHeight noise2D cx cz)) \<or> v = Some LEAVES)"

text \<open>
  A chunk's columns in the order \<open>generateChunkData\<close> visits them, and what the body
  of the loop writes for one column: the cells of the column's strata, and the trunk and
  leaf cells of its tree when it has one. \<open>columnValue\<close> is the type the column
  leaves in a cell it writes (the tree is written after the strata).
\<close>

definition chunkColumns :: "int \<Rightarrow> int \<Rightarrow> (int \<times> int) list" where
  "chunkColumns chunkX chunkZ =
     concat (map (\<lambda>x. map (\<lambda>z. (chunkX * CHUNK_SIZE + x, chunkZ * CHUNK_SIZE + z))
        [0..CHUNK_SIZE - 1]) [0..CHUNK_SIZE - 1])"

definition treeAt :: "noise \<Rightarrow> int \<Rightarrow> int \<Rightarrow> bool" where
  "treeAt noise2D worldX worldZ =
     (shouldPlaceTree noise2D worldX worldZ \<and> generateHeight noise2D worldX worldZ > 5)"

definition tree_leaf_cell :: "noise \<Rightarrow> int \<times> int \<Rightarrow> cell \<Rightarrow> bool" where
  "tree_leaf_cell noise2D col c =
     (case col of (worldX, worldZ) \<Rightarrow>
        treeAt noise2D worldX worldZ
        \<and> spec_leaf_cell worldX (generateHeight noise2D worldX worldZ + 1) worldZ
             (trunkHeightAt noise2D worldX worldZ) c)"

definition tree_trunk_cell :: "noise \<Rightarrow> int \<times> int \<Rightarrow> cell \<Rightarrow> bool" where
  "tree_trunk_cell noise2D col c =
     (case col of (worldX, worldZ) \<Rightarrow>
        treeAt noise2D worldX worldZ
        \<and> spec_trunk_cell worldX (generateHeight noise2D worldX worldZ + 1) worldZ
             (trunkHeightAt noise2D worldX worldZ) c)"

definition strata_cell :: "noise \<Rightarrow> int \<times> int \<Rightarrow> cell \<Rightarrow> bool" where
  "strata_cell noise2D col c =
     (case (col, c) of ((worldX, worldZ), (cx, cy, cz)) \<Rightarrow>
        cx = worldX \<and> cz = worldZ \<and> 0 \<le> cy \<and> cy \<le> generateHeight noise2D worldX worldZ)"

definition columnWrites :: "noise \<Rightarrow> int \<times> int \<Rightarrow> cell \<Rightarrow> bool" where
  "columnWrites noise2D col c =
     (tree_leaf_cell noise2D col c \<or> tree_trunk_cell noise2D col c \<or> strata_cell noise2D col c)"

definition columnValue :: "noise \<Rightarrow> int \<times> int \<Rightarrow> cell \<Rightarrow> block_type" where
  "columnValue noise2D col c =
     (if tree_leaf_cell noise2D col c then LEAVES
      else if tree_trunk_cell noise2D col c then WOOD
      else spec_strata_type (fst (snd c)) (generateHeight noise2D (fst col) (snd col)))"

definition chunk_leaf_cell :: "noise \<Rightarrow> int \<Rightarrow> int \<Rightarrow> cell \<Rightarrow> bool" where
  "chunk_leaf_cell noise2D chunkX chunkZ c =
     list_ex (\<lambda>col. tree_leaf_cell noise2D col c) (chunkColumns chunkX chunkZ)"

definition chunk_trunk_cell :: "noise \<Rightarrow> int \<Rightarrow> int \<Rightarrow> cell \<Rightarrow> bool" where
  "chunk_trunk_cell noise2D chunkX chunkZ c =
     list_ex (\<lambda>col. tree_trunk_cell noise2D col c) (chunkColumns chunkX chunkZ)"

definition chunk_strata_cell :: "noise \<Rightarrow> int \<Rightarrow> int \<Rightarrow> cell \<Rightarrow> bool" where
  "chunk_strata_cell noise2D chunkX chunkZ c =
     list_ex (\<lambda>col. strata_cell noise2D col c) (chunkColumns chunkX chunkZ)"

section \<open>Chunk meshing\<close>

text \<open>
  An instanced mesh is modelled by the \<^verbatim>\<open>userData\<close> the code attaches to it: the
  chunk it belongs to, the cells it draws (instance \<open>i\<close> is drawn at cell \<open>i\<close> plus
  0.5 on each axis) and their block type. Geometry and material are left to the renderer.
\<close>

record mesh =
  userData_chunkX :: int
  userData_chunkZ :: int
  userData_blocks :: "cell list"
  userData_blockType :: block_type

type_synonym blocks_by_type = "block_type \<rightharpoonup> cell list"

definition hasExposedFace :: "world \<Rightarrow> int \<Rightarrow> int \<Rightarrow> int \<Rightarrow> bool" where
  "hasExposedFace w worldX y worldZ =
     (getBlock w (of_int (worldX + 1)) (of_int y) (of_int worldZ) = AIR \<or>
      getBlock w (of_int (worldX - 1)) (of_int y) (of_int worldZ) = AIR \<or>
      getBlock w (of_int worldX) (of_int (y + 1)) (of_int worldZ) = AIR \<or>
      getBlock w (of_int worldX) (of_int (y - 1)) (of_int worldZ) = AIR \<or>
      getBlock w (of_int worldX) (of_int y) (of_int (worldZ + 1)) = AIR \<or>
      getBlock w (of_int worldX) (of_int y) (of_int (worldZ - 1)) = AIR)"

text \<open>The body of the innermost loop of \<^verbatim>\<open>buildChunkMesh\<close>.\<close>

definition meshVisit :: "world \<Rightarrow> int \<Rightarrow> int \<Rightarrow> int \<Rightarrow> blocks_by_type \<Rightarrow> blocks_by_type" where
  "meshVisit w worldX worldZ y blocksByType =
     (let blockType = getBlock w (of_int worldX) (of_int y) (of_int worldZ)
      in if blockType = AIR then blocksByType
         else if \<not> hasExposedFace w worldX y worldZ then blocksByType
         else blocksByType(blockType \<mapsto>
                (case blocksByType blockType of None \<Rightarrow> [] | Some bs \<Rightarrow> bs)
                  @ [(worldX, y, worldZ)]))"

definition scanChunk :: "world \<Rightarrow> int \<Rightarrow> int \<Rightarrow> blocks_by_type" where
  "scanChunk w startX startZ =
     fold (\<lambda>x. fold (\<lambda>z. fold (meshVisit w (startX + x) (startZ + z)) [0..CHUNK_HEIGHT - 1])
                  [0..CHUNK_SIZE - 1])
       [0..CHUNK_SIZE - 1] Map.empty"

text \<open>
  \<^verbatim>\<open>Object.entries\<close> lists the integer keys of \<^verbatim>\<open>blocksByType\<close> in ascending
  order, which is the order of the block type codes.
\<close>

definition buildChunkMesh :: "world \<Rightarrow> int \<Rightarrow> int \<Rightarrow> mesh list" where
  "buildChunkMesh w chunkX chunkZ =
     (let startX = chunkX * CHUNK_SIZE;
          startZ = chunkZ * CHUNK_SIZE;
          blocksByType = scanChunk w startX startZ
      in concat (map (\<lambda>type.
           case blocksByType type of
             None \<Rightarrow> []
           | Some bs \<Rightarrow>
               if length bs = 0 then []
               else [\<lparr>userData_chunkX = chunkX, userData_chunkZ = chunkZ,
                      userData_blocks = bs, userData_blockType = type\<rparr>])
         [AIR, DIRT, GRASS, STONE, WOOD, LEAVES]))"

section \<open>The game state\<close>

type_synonym vec3 = "real \<times> real \<times> real"

record chunk =
  chunk_meshes :: "mesh list"
  chunk_chunkX :: int
  chunk_chunkZ :: int

record selected =
  selected_position :: vec3
  selected_type :: block_type

text \<open>
  The fields of \<^verbatim>\<open>Game\<close> that the core reads and writes. \<^verbatim>\<open>chunks\<close> is a
  \<^verbatim>\<open>Map\<close> that the code iterates, so it is an association list in insertion order,
  keyed by the pair of chunk coordinates that the string \<^verbatim>\<open>"chunkX,chunkZ"\<close> spells.
  \<^verbatim>\<open>scene\<close> lists the meshes added to the scene, and \<^verbatim>\<open>cameraDirection\<close> is
  what \<^verbatim>\<open>camera.getWorldDirection\<close> returns.
\<close>

record game =
  chunks :: "((int \<times> int) \<times> chunk) list"
  worldData :: world
  scene :: "mesh list"
  inventory :: inventory
  selectedBlock :: "selected option"
  selectedSlot :: int
  cameraPosition :: vec3
  cameraDirection :: vec3
  velocity :: vec3
  canJump :: bool
  isLocked :: bool
  isRunning :: bool
  moveForward :: bool
  moveBackward :: bool
  moveLeft :: bool
  moveRight :: bool

section \<open>Chunk management\<close>

text \<open>\<^verbatim>\<open>meshes.forEach(mesh => this.scene.remove(mesh))\<close>.\<close>

definition sceneRemove :: "mesh list \<Rightarrow> mesh list \<Rightarrow> mesh list" where
  "sceneRemove ms sc = fold remove1 ms sc"

definition generateChunk :: "noise \<Rightarrow> game \<Rightarrow> int \<Rightarrow> int \<Rightarrow> game" where
  "generateChunk noise2D g chunkX chunkZ =
     (let key = (chunkX, chunkZ)
      in if map_of (chunks g) key \<noteq> None then g
         else
           let w = generateChunkData noise2D chunkX chunkZ (worldData g);
               ms = buildChunkMesh w chunkX chunkZ
           in g\<lparr>worldData := w,
                 scene := scene g @ ms,
                 chunks := AList.update key
                   \<lparr>chunk_meshes = ms, chunk_chunkX = chunkX, chunk_chunkZ = chunkZ\<rparr>
                   (chunks g)\<rparr>)"

definition rebuildChunk :: "game \<Rightarrow> int \<Rightarrow> int \<Rightarrow> game" where
  "rebuildChunk g chunkX chunkZ =
     (let key = (chunkX, chunkZ);
          sc = (case map_of (chunks g) key of
                  None \<Rightarrow> scene g
                | Some chunk \<Rightarrow> sceneRemove (chunk_meshes chunk) (scene g));
          ms = buildChunkMesh (worldData g) chunkX chunkZ
      in g\<lparr>scene := sc @ ms,
            chunks := AList.update key
              \<lparr>chunk_meshes = ms, chunk_chunkX = chunkX, chunk_chunkZ = chunkZ\<rparr>
              (chunks g)\<rparr>)"

definition removeChunk :: "game \<Rightarrow> int \<Rightarrow> int \<Rightarrow> game" where
  "removeChunk g chunkX chunkZ =
     (let key = (chunkX, chunkZ)
      in case map_of (chunks g) key of
           None \<Rightarrow> g
         | Some chunk \<Rightarrow>
             g\<lparr>scene := sceneRemove (chunk_meshes chunk) (scene g),
               chunks := AList.delete key (chunks g)\<rparr>)"

text \<open>
  The callback of \<^verbatim>\<open>this.chunks.forEach\<close> in \<^verbatim>\<open>updateChunks\<close>, for one key of
  the map. \<^verbatim>\<open>Map.prototype.forEach\<close> skips an entry that was deleted before its turn
  and passes the value the key holds at its turn.
\<close>

definition unloadVisit :: "(int \<times> int) list \<Rightarrow> int \<times> int \<Rightarrow> game \<Rightarrow> game" where
  "unloadVisit neededChunks key g =
     (case map_of (chunks g) key of
        None \<Rightarrow> g
      | Some chunk \<Rightarrow>
          if key \<in> set neededChunks then g
          else removeChunk g (chunk_chunkX chunk) (chunk_chunkZ chunk))"

definition playerChunk :: "game \<Rightarrow> int \<times> int" where
  "playerChunk g =
     (case cameraPosition g of (px, py, pz) \<Rightarrow>
        (\<lfloor>px / of_int CHUNK_SIZE\<rfloor>, \<lfloor>pz / of_int CHUNK_SIZE\<rfloor>))"

text \<open>
  \<^verbatim>\<open>updateChunks\<close>: the two loops fill the set \<^verbatim>\<open>neededChunks\<close> and call
  \<^verbatim>\<open>generateChunk\<close>; the set does not depend on the state, so it is computed first.
\<close>

definition updateChunks :: "noise \<Rightarrow> game \<Rightarrow> game" where
  "updateChunks noise2D g =
     (case playerChunk g of (playerChunkX, playerChunkZ) \<Rightarrow>
        let offsets = [- RENDER_DISTANCE..RENDER_DISTANCE];
            neededChunks =
              concat (map (\<lambda>x. map (\<lambda>z. (playerChunkX + x, playerChunkZ + z)) offsets) offsets);
            g1 = fold (\<lambda>x. fold (\<lambda>z g. generateChunk noise2D g (playerChunkX + x) (playerChunkZ + z))
                             offsets)
                   offsets g
        in fold (unloadVisit neededChunks) (map fst (chunks g1)) g1)"

text \<open>The loaded-chunk set: the keys of \<^verbatim>\<open>chunks\<close>.\<close>

definition loadedChunks :: "game \<Rightarrow> (int \<times> int) set" where
  "loadedChunks g = dom (map_of (chunks g))"

text \<open>Face exposure in the words of the specification: the six face-adjacent cells.\<close>

definition spec_neighbours :: "cell \<Rightarrow> cell list" where
  "spec_neighbours c =
     (case c of (x, y, z) \<Rightarrow>
        [(x + 1, y, z), (x - 1, y, z), (x, y + 1, z), (x, y - 1, z), (x, y, z + 1), (x, y, z - 1)])"

definition spec_exposed :: "world \<Rightarrow> cell \<Rightarrow> bool" where
  "spec_exposed w c =
     list_ex (\<lambda>(nx, ny, nz). getBlock w (of_int nx) (of_int ny) (of_int nz) = AIR)
       (spec_neighbours c)"

section \<open>Block placement\<close>

definition slotToBlockType :: "block_type list" where
  "slotToBlockType = [DIRT, GRASS, STONE, WOOD, LEAVES]"

text \<open>Indexing the array outside its range gives \<^verbatim>\<open>undefined\<close> (\<open>None\<close>).\<close>

definition getSelectedBlockType :: "game \<Rightarrow> block_type option" where
  "getSelectedBlockType g =
     (if 0 \<le> selectedSlot g \<and> selectedSlot g < int (length slotToBlockType)
      then Some (slotToBlockType ! nat (selectedSlot g)) else None)"

definition getSelectedBlockCount :: "game \<Rightarrow> jsnum option" where
  "getSelectedBlockCount g =
     (case getSelectedBlockType g of None \<Rightarrow> None | Some t \<Rightarrow> inventory g t)"

definition boxesIntersect :: "vec3 \<Rightarrow> vec3 \<Rightarrow> vec3 \<Rightarrow> vec3 \<Rightarrow> bool" where
  "boxesIntersect min1 max1 min2 max2 =
     (case (min1, max1, min2, max2) of
        ((min1x, min1y, min1z), (max1x, max1y, max1z),
         (min2x, min2y, min2z), (max2x, max2y, max2z)) \<Rightarrow>
          (min1x \<le> max2x \<and> max1x \<ge> min2x) \<and>
          (min1y \<le> max2y \<and> max1y \<ge> min2y) \<and>
          (min1z \<le> max2z \<and> max1z \<ge> min2z))"

text \<open>
  \<^verbatim>\<open>placeBlock\<close>. The raycaster belongs to the renderer: \<open>intersects\<close> is the list
  of face normals of the hits it returns, nearest first.
\<close>

definition placeBlock :: "game \<Rightarrow> vec3 list \<Rightarrow> game" where
  "placeBlock g intersects =
     (case selectedBlock g of
        None \<Rightarrow> g
      | Some sel \<Rightarrow>
          let blockType = getSelectedBlockType g
          in if (case getSelectedBlockCount g of Some (Num k) \<Rightarrow> k \<le> 0 | _ \<Rightarrow> False) then g
             else
               (case intersects of
                  [] \<Rightarrow> g
                | normal # _ \<Rightarrow>
                    (case (selected_position sel, normal, cameraPosition g) of
                       ((sx, sy, sz), (nx, ny, nz), (px, py, pz)) \<Rightarrow>
                         let pos = (sx + nx, sy + ny, sz + nz);
                             blockMin = (sx + nx - 0.5, sy + ny - 0.5, sz + nz - 0.5);
                             blockMax = (sx + nx + 0.5, sy + ny + 0.5, sz + nz + 0.5);
                             playerMin = (px - playerWidth, py - playerHeight, pz - playerWidth);
                             playerMax = (px + playerWidth, py + 0.2, pz + playerWidth)
                         in if boxesIntersect blockMin blockMax playerMin playerMax then g
                            else
                              (case blockType of
                                 None \<Rightarrow> g
                               | Some t \<Rightarrow>
                                   (case removeFromInventory (inventory g) t 1 of
                                      (removed, ivt) \<Rightarrow>
                                        if removed
                                        then rebuildChunk
                                               (g\<lparr>inventory := ivt,
                                                   worldData := setBlock (worldData g)
                                                     (sx + nx) (sy + ny) (sz + nz) t\<rparr>)
                                               \<lfloor>(sx + nx) / of_int CHUNK_SIZE\<rfloor>
                                               \<lfloor>(sz + nz) / of_int CHUNK_SIZE\<rfloor>
                                        else g)))))"

text \<open>
  Overlap of a cell with the player's volume in the words of the specification: the block
  at \<open>(x, y, z)\<close> spans \<open>[x, x + 1)\<close> on each axis, and the player's volume is the
  box \<^verbatim>\<open>placeBlock\<close> builds around the camera position. Two boxes overlap when they
  share a point in the interior of both.
\<close>

definition spec_cell_overlaps_player :: "cell \<Rightarrow> vec3 \<Rightarrow> bool" where
  "spec_cell_overlaps_player c p =
     (case (c, p) of
        ((cx, cy, cz), (px, py, pz)) \<Rightarrow>
          of_int cx < px + playerWidth \<and> px - playerWidth < of_int cx + 1 \<and>
          of_int cy < py + 0.2 \<and> py - playerHeight < of_int cy + 1 \<and>
          of_int cz < pz + playerWidth \<and> pz - playerWidth < of_int cz + 1)"

section \<open>Player physics\<close>

text \<open>
  The eight corners \<^verbatim>\<open>checkCollision\<close> tests, in the order of the source; the loop
  returns true at the first corner inside a block.
\<close>

definition collisionCorners :: "real \<Rightarrow> real \<Rightarrow> real \<Rightarrow> vec3 list" where
  "collisionCorners x y z =
     [(x - playerWidth, y, z - playerWidth),
      (x + playerWidth, y, z - playerWidth),
      (x - playerWidth, y, z + playerWidth),
      (x + playerWidth, y, z + playerWidth),
      (x - playerWidth, y - playerHeight, z - playerWidth),
      (x + playerWidth, y - playerHeight, z - playerWidth),
      (x - playerWidth, y - playerHeight, z + playerWidth),
      (x + playerWidth, y - playerHeight, z + playerWidth)]"

definition checkCollision :: "world \<Rightarrow> real \<Rightarrow> real \<Rightarrow> real \<Rightarrow> bool" where
  "checkCollision w x y z =
     list_ex (\<lambda>pos. case pos of (px, py, pz) \<Rightarrow>
                getBlock w (of_int \<lfloor>px\<rfloor>) (of_int \<lfloor>py\<rfloor>) (of_int \<lfloor>pz\<rfloor>) \<noteq> AIR)
       (collisionCorners x y z)"

text \<open>
  \<^verbatim>\<open>Vector3.normalize\<close> of three.js divides by the length, or by 1 when the length
  is 0.
\<close>

definition normalize :: "vec3 \<Rightarrow> vec3" where
  "normalize v =
     (case v of (x, y, z) \<Rightarrow>
        let len = sqrt (x * x + y * y + z * z);
            d = (if len = 0 then 1 else len)
        in (x / d, y / d, z / d))"

definition addScaledVector :: "vec3 \<Rightarrow> vec3 \<Rightarrow> real \<Rightarrow> vec3" where
  "addScaledVector v u s =
     (case (v, u) of ((vx, vy, vz), (ux, uy, uz)) \<Rightarrow> (vx + ux * s, vy + uy * s, vz + uz * s))"

definition moveVector :: "game \<Rightarrow> vec3" where
  "moveVector g =
     (case cameraDirection g of (dx, dy, dz) \<Rightarrow>
        let forward = normalize (dx, 0, dz);
            right = (case forward of (fx, fy, fz) \<Rightarrow> normalize (- fz, 0, fx));
            speed = (if isRunning g then runSpeed else walkSpeed);
            m0 = (0, 0, 0);
            m1 = (if moveForward g then addScaledVector m0 forward speed else m0);
            m2 = (if moveBackward g then addScaledVector m1 forward (- speed) else m1);
            m3 = (if moveRight g then addScaledVector m2 right speed else m2);
            m4 = (if moveLeft g then addScaledVector m3 right (- speed) else m3)
        in m4)"

text \<open>The vertical velocity after gravity, and the three candidate coordinates.\<close>

definition fallVelocity :: "game \<Rightarrow> real \<Rightarrow> real" where
  "fallVelocity g delta = (case velocity g of (vx, vy, vz) \<Rightarrow> vy - gravity * delta)"

definition candidateX :: "game \<Rightarrow> real \<Rightarrow> real" where
  "candidateX g delta =
     (case (cameraPosition g, moveVector g) of
        ((px, py, pz), (mx, my, mz)) \<Rightarrow> px + mx * delta)"

definition candidateZ :: "game \<Rightarrow> real \<Rightarrow> real" where
  "candidateZ g delta =
     (case (cameraPosition g, moveVector g) of
        ((px, py, pz), (mx, my, mz)) \<Rightarrow> pz + mz * delta)"

definition candidateY :: "game \<Rightarrow> real \<Rightarrow> real" where
  "candidateY g delta =
     (case cameraPosition g of (px, py, pz) \<Rightarrow> py + fallVelocity g delta * delta)"

text \<open>The horizontal position after the X step and after the Z step.\<close>

definition resolvedX :: "game \<Rightarrow> real \<Rightarrow> real" where
  "resolvedX g delta =
     (case cameraPosition g of (px, py, pz) \<Rightarrow>
        if \<not> checkCollision (worldData g) (candidateX g delta) py pz
        then candidateX g delta else px)"

definition resolvedZ :: "game \<Rightarrow> real \<Rightarrow> real" where
  "resolvedZ g delta =
     (case cameraPosition g of (px, py, pz) \<Rightarrow>
        if \<not> checkCollision (worldData g) (resolvedX g delta) py (candidateZ g delta)
        then candidateZ g delta else pz)"

definition updatePlayer :: "game \<Rightarrow> real \<Rightarrow> game" where
  "updatePlayer g delta =
     (if \<not> isLocked g then g
      else
        (case (cameraPosition g, velocity g) of
           ((px, py, pz), (vx, vy, vz)) \<Rightarrow>
             let vy1 = fallVelocity g delta;
                 x1 = resolvedX g delta;
                 z1 = resolvedZ g delta;
                 newY = candidateY g delta;
                 collided = checkCollision (worldData g) x1 newY z1;
                 y1 = (if \<not> collided then newY
                       else if vy1 < 0
                            then of_int (\<lfloor>newY - playerHeight\<rfloor> + 1) + playerHeight
                            else py);
                 canJump1 = (if collided \<and> vy1 < 0 then True else canJump g);
                 vy2 = (if collided then 0 else vy1)
             in if y1 < - 50
                then g\<lparr>cameraPosition := (0, 20, 0), velocity := (0, 0, 0), canJump := canJump1\<rparr>
                else g\<lparr>cameraPosition := (x1, y1, z1), velocity := (vx, vy2, vz),
                       canJump := canJump1\<rparr>))"

text \<open>
  The height the landing branch snaps the camera to, and the four lower corners of the
  player's volume.
\<close>

definition groundY :: "game \<Rightarrow> real \<Rightarrow> real" where
  "groundY g delta = of_int (\<lfloor>candidateY g delta - playerHeight\<rfloor> + 1) + playerHeight"

definition feetCorners :: "real \<Rightarrow> real \<Rightarrow> real \<Rightarrow> vec3 list" where
  "feetCorners x y z = drop 4 (collisionCorners x y z)"

section \<open>The loaded-chunk invariant\<close>

text \<open>
  What every state built by the chunk manager satisfies: an entry of \<^verbatim>\<open>chunks\<close>
  is stored under the key of its own coordinates, and its meshes carry these
  coordinates; no mesh is in the scene twice; and every mesh of the scene belongs to the
  loaded chunk of its coordinates. Meshes are compared by their content, which under this
  invariant identifies the mesh object.
\<close>

definition meshKey :: "mesh \<Rightarrow> int \<times> int" where
  "meshKey m = (userData_chunkX m, userData_chunkZ m)"

definition chunkEntryOk :: "(int \<times> int) \<times> chunk \<Rightarrow> bool" where
  "chunkEntryOk e =
     (case e of (key, chunk) \<Rightarrow>
        key = (chunk_chunkX chunk, chunk_chunkZ chunk)
        \<and> list_all (\<lambda>m. meshKey m = key) (chunk_meshes chunk))"

definition sceneMeshOk :: "game \<Rightarrow> mesh \<Rightarrow> bool" where
  "sceneMeshOk g m =
     (case map_of (chunks g) (meshKey m) of
        None \<Rightarrow> False
      | Some chunk \<Rightarrow> m \<in> set (chunk_meshes chunk))"

definition gameInv :: "game \<Rightarrow> bool" where
  "gameInv g =
     (list_all chunkEntryOk (chunks g) \<and> distinct (scene g) \<and> list_all (sceneMeshOk g) (scene g))"

text \<open>The square of chunk keys around a player chunk, in the words of the specification.\<close>

definition spec_needed :: "int \<times> int \<Rightarrow> int \<Rightarrow> (int \<times> int) set" where
  "spec_needed p r = (case p of (cx, cz) \<Rightarrow> {(x, z). \<bar>x - cx\<bar> \<le> r \<and> \<bar>z - cz\<bar> \<le> r})"

section \<open>Example states\<close>

text \<open>The state the constructor builds, before \<^verbatim>\<open>init\<close> loads the first chunks.\<close>

definition initialGame :: game where
  "initialGame =
     \<lparr>chunks = [], worldData = Map.empty, scene = [], inventory = initialInventory,
      selectedBlock = None, selectedSlot = 0, cameraPosition = (0, 20, 0),
      cameraDirection = (0, 0, - 1), velocity = (0, 0, 0), canJump = False,
      isLocked = False, isRunning = False, moveForward = False, moveBackward = False,
      moveLeft = False, moveRight = False\<rparr>"

text \<open>
  A state with chunk \<open>(2, 3)\<close> loaded and one mesh in the scene, over a store in
  which the player has placed a Wood block at \<open>(32, 20, 48)\<close>; and the noise function
  that is 0 everywhere, which gives flat terrain of height 10 without trees.
\<close>

definition exampleMesh :: mesh where
  "exampleMesh =
     \<lparr>userData_chunkX = 2, userData_chunkZ = 3, userData_blocks = [(32, 5, 48)],
      userData_blockType = STONE\<rparr>"

definition exampleChunk :: chunk where
  "exampleChunk = \<lparr>chunk_meshes = [exampleMesh], chunk_chunkX = 2, chunk_chunkZ = 3\<rparr>"

definition exampleGame :: game where
  "exampleGame =
     initialGame\<lparr>chunks := [((2, 3), exampleChunk)], scene := [exampleMesh],
                 worldData := [(32, 20, 48) \<mapsto> WOOD]\<rparr>"

definition flatNoise :: noise where
  "flatNoise x z = 0"

text \<open>The same state with the player far from the loaded chunk.\<close>

definition farGame :: game where
  "farGame = exampleGame\<lparr>cameraPosition := (200, 20, 0)\<rparr>"

text \<open>
  The player stands on Grass at height 10 with one Dirt block in the inventory, aims at
  the top face of the block at \<open>(0, 10, 0)\<close>, and has the camera at \<open>x = px\<close>.
\<close>

definition standingGame :: "real \<Rightarrow> game" where
  "standingGame px =
     initialGame
       \<lparr>worldData := [(- 1, 10, 0) \<mapsto> GRASS, (0, 10, 0) \<mapsto> GRASS, (1, 10, 0) \<mapsto> GRASS],
        inventory := initialInventory(DIRT \<mapsto> Num 1),
        selectedBlock := Some \<lparr>selected_position = (0, 10, 0), selected_type = GRASS\<rparr>,
        selectedSlot := 0,
        cameraPosition := (px, 12.8, 0.5)\<rparr>"

text \<open>A falling player whose head is inside the only block of the world.\<close>

definition headBlockedGame :: game where
  "headBlockedGame =
     initialGame
       \<lparr>worldData := [(0, 20, 0) \<mapsto> STONE],
        cameraPosition := (0.5, 20.5, 0.5),
        velocity := (0, - 1, 0),
        isLocked := True\<rparr>"

text \<open>A falling player 0.1 above a Grass block.\<close>

definition landingGame :: game where
  "landingGame =
     initialGame
       \<lparr>worldData := [(0, 10, 0) \<mapsto> GRASS],
        cameraPosition := (0.5, 12.9, 0.5),
        velocity := (0, - 1, 0),
        isLocked := True\<rparr>"

section \<open>Auxiliary definitions for the mesher\<close>

text \<open>
  The scan of \<open>buildChunkMesh\<close> seen as a list: what each visit contributes, the list
  of all contributions in scan order, and the cells the scan visits.
\<close>

text \<open>Appending one cell to the list of its type, as the loop body does.\<close>

definition pushBlock :: "block_type \<times> cell \<Rightarrow> blocks_by_type \<Rightarrow> blocks_by_type" where
  "pushBlock p blocksByType =
     blocksByType(fst p \<mapsto>
       (case blocksByType (fst p) of None \<Rightarrow> [] | Some bs \<Rightarrow> bs) @ [snd p])"

text \<open>What one visit of the scan contributes: the cell with its type, or nothing.\<close>

definition visits :: "world \<Rightarrow> int \<Rightarrow> int \<Rightarrow> int \<Rightarrow> (block_type \<times> cell) list" where
  "visits w worldX worldZ y =
     (if getBlock w (of_int worldX) (of_int y) (of_int worldZ) \<noteq> AIR
         \<and> hasExposedFace w worldX y worldZ
      then [(getBlock w (of_int worldX) (of_int y) (of_int worldZ), (worldX, y, worldZ))]
      else [])"

definition scanList :: "world \<Rightarrow> int \<Rightarrow> int \<Rightarrow> (block_type \<times> cell) list" where
  "scanList w startX startZ =
     concat (map (\<lambda>x. concat (map (\<lambda>z. concat (map (visits w (startX + x) (startZ + z))
        [0..CHUNK_HEIGHT - 1])) [0..CHUNK_SIZE - 1])) [0..CHUNK_SIZE - 1])"

definition scanCells :: "int \<Rightarrow> int \<Rightarrow> cell list" where
  "scanCells startX startZ =
     concat (map (\<lambda>x. concat (map (\<lambda>z. map (\<lambda>y. (startX + x, y, startZ + z))
        [0..CHUNK_HEIGHT - 1]) [0..CHUNK_SIZE - 1])) [0..CHUNK_SIZE - 1])"

definition visible :: "world \<Rightarrow> cell \<Rightarrow> bool" where
  "visible w c =
     (case c of (x, y, z) \<Rightarrow>
        getBlock w (of_int x) (of_int y) (of_int z) \<noteq> AIR \<and> hasExposedFace w x y z)"

definition cellType :: "world \<Rightarrow> cell \<Rightarrow> block_type" where
  "cellType w c = (case c of (x, y, z) \<Rightarrow> getBlock w (of_int x) (of_int y) (of_int z))"

definition selectType :: "block_type \<Rightarrow> (block_type \<times> cell) list \<Rightarrow> cell list" where
  "selectType t l = map snd (filter (\<lambda>p. fst p = t) l)"

text \<open>The mesh for one block type, when the scan found a cell of the type.\<close>

definition meshOf :: "int \<Rightarrow> int \<Rightarrow> (block_type \<times> cell) list \<Rightarrow> block_type \<Rightarrow> mesh list" where
  "meshOf chunkX chunkZ l t =
     (if selectType t l = [] then []
      else [\<lparr>userData_chunkX = chunkX, userData_chunkZ = chunkZ,
             userData_blocks = selectType t l, userData_blockType = t\<rparr>])"

definition typeOrder :: "block_type list" where
  "typeOrder = [AIR, DIRT, GRASS, STONE, WOOD, LEAVES]"

section \<open>Voxel store: proofs\<close>

lemma getBlockKey_of_int [simp]:
  "getBlockKey (of_int x) (of_int y) (of_int z) = (x, y, z)"
  by (simp add: getBlockKey_def)

lemma setBlock_air_free:
  assumes "AIR \<notin> ran w"
  shows "AIR \<notin> ran (setBlock w x y z type)"
proof (cases "type = AIR")
  case True
  have "ran (w((\<lfloor>x\<rfloor>, \<lfloor>y\<rfloor>, \<lfloor>z\<rfloor>) := None)) \<subseteq> ran w"
    by (auto simp: ran_def split: if_splits)
  with assms True show ?thesis
    by (auto simp: setBlock_def)
next
  case False
  have "ran (w((\<lfloor>x\<rfloor>, \<lfloor>y\<rfloor>, \<lfloor>z\<rfloor>) \<mapsto> type)) \<subseteq> insert type (ran w)"
    by (auto simp: ran_def split: if_splits)
  with assms False show ?thesis
    by (auto simp: setBlock_def)
qed

lemma setBlocks_air_free:
  "AIR \<notin> ran w \<Longrightarrow> AIR \<notin> ran (setBlocks calls w)"
proof (induction calls arbitrary: w)
  case Nil
  then show ?case by simp
next
  case (Cons c calls)
  obtain x y z t where c: "c = (x, y, z, t)"
    by (cases c) auto
  from Cons.prems have "AIR \<notin> ran (setBlock w x y z t)"
    by (rule setBlock_air_free)
  then show ?case
    unfolding c by (simp add: Cons.IH)
qed

text \<open>
  C1. Starting from the empty store of the constructor, and from any store without an
  \<open>AIR\<close> entry, no sequence of \<open>setBlock\<close> calls leaves an entry holding \<open>AIR\<close>;
  \<open>setBlock\<close> with type \<open>AIR\<close> removes the entry of the cell; and \<open>getBlock\<close> at
  a coordinate whose cell has no entry returns \<open>AIR\<close>.
\<close>

theorem voxel_store_invariant:
  "AIR \<notin> ran (setBlocks calls Map.empty)
   \<and> (AIR \<notin> ran w \<longrightarrow> AIR \<notin> ran (setBlocks calls w))
   \<and> setBlock w x y z AIR (getBlockKey x y z) = None
   \<and> (w (getBlockKey x y z) = None \<longrightarrow> getBlock w x y z = AIR)"
proof (intro conjI impI)
  show "AIR \<notin> ran (setBlocks calls Map.empty)"
    by (rule setBlocks_air_free) simp
  show "AIR \<notin> ran (setBlocks calls w)" if "AIR \<notin> ran w"
    using that by (rule setBlocks_air_free)
  show "setBlock w x y z AIR (getBlockKey x y z) = None"
    by (simp add: setBlock_def getBlockKey_def)
  show "getBlock w x y z = AIR" if "w (getBlockKey x y z) = None"
    using that by (simp add: getBlock_def)
qed

theorem voxel_store_invariant_witness:
  "AIR \<notin> ran (setBlocks [(0.5, 10, 0, GRASS), (0.5, 10, 0, AIR)] Map.empty)
   \<and> AIR \<notin> ran [(0::int, 3::int, 0::int) \<mapsto> STONE]
   \<and> AIR \<notin> ran (setBlocks [(0.5, 10, 0, GRASS), (0.5, 10, 0, AIR)]
                    [(0::int, 3::int, 0::int) \<mapsto> STONE])
   \<and> setBlock [(0::int, 3::int, 0::int) \<mapsto> STONE] 0.5 10 0 AIR (getBlockKey 0.5 10 0) = None
   \<and> [(0::int, 3::int, 0::int) \<mapsto> STONE] (getBlockKey 0.5 10 0) = None
   \<and> getBlock [(0::int, 3::int, 0::int) \<mapsto> STONE] 0.5 10 0 = AIR"
proof -
  have a: "AIR \<notin> ran [(0::int, 3::int, 0::int) \<mapsto> STONE]"
    by simp
  have b: "[(0::int, 3::int, 0::int) \<mapsto> STONE] (getBlockKey 0.5 10 0) = None"
    by (simp add: getBlockKey_def)
  show ?thesis
    using a b
      voxel_store_invariant [of "[(0.5, 10, 0, GRASS), (0.5, 10, 0, AIR)]"
        "[(0::int, 3::int, 0::int) \<mapsto> STONE]" "0.5" 10 0]
    by blast
qed

section \<open>Inventory: proofs\<close>

lemma countsNonNegative_iff:
  "countsNonNegative ivt \<longleftrightarrow> (\<forall>t k. ivt t = Some (Num k) \<longrightarrow> 0 \<le> k)"
proof
  assume a: "countsNonNegative ivt"
  show "\<forall>t k. ivt t = Some (Num k) \<longrightarrow> 0 \<le> k"
  proof (intro allI impI)
    fix t k
    assume "ivt t = Some (Num k)"
    with a show "0 \<le> k"
      by (cases t) (simp_all add: countsNonNegative_def)
  qed
next
  assume "\<forall>t k. ivt t = Some (Num k) \<longrightarrow> 0 \<le> k"
  then have "case ivt t of Some (Num k) \<Rightarrow> 0 \<le> k | _ \<Rightarrow> True" for t
    by (auto split: option.splits jsnum.splits)
  then show "countsNonNegative ivt"
    by (simp add: countsNonNegative_def)
qed

lemma addToInventory_nonneg:
  "countsNonNegative ivt \<Longrightarrow> 0 \<le> n \<Longrightarrow> countsNonNegative (addToInventory ivt t n)"
  by (auto simp: countsNonNegative_iff addToInventory_def split: option.splits jsnum.splits)

lemma removeFromInventory_nonneg:
  "countsNonNegative ivt \<Longrightarrow> countsNonNegative (snd (removeFromInventory ivt t n))"
  by (auto simp: countsNonNegative_iff removeFromInventory_def
      split: option.splits jsnum.splits if_splits)

lemma applyInventoryOp_nonneg:
  "countsNonNegative ivt \<Longrightarrow> opAmountOk op \<Longrightarrow> countsNonNegative (applyInventoryOp op ivt)"
  by (cases op) (simp_all add: addToInventory_nonneg removeFromInventory_nonneg)

lemma fold_applyInventoryOp_nonneg:
  "countsNonNegative ivt \<Longrightarrow> list_all opAmountOk ops
   \<Longrightarrow> countsNonNegative (fold applyInventoryOp ops ivt)"
  by (induction ops arbitrary: ivt) (simp_all add: applyInventoryOp_nonneg)

lemma initialInventory_nonneg: "countsNonNegative initialInventory"
  by (simp add: countsNonNegative_def initialInventory_def)

text \<open>
  C6. From the initial inventory, after any sequence of \<open>addToInventory\<close> and
  \<open>removeFromInventory\<close> calls that add non-negative amounts, every count is
  \<open>\<ge> 0\<close>. \<open>removeFromInventory\<close> on a count \<open>k\<close> returns false and leaves the
  inventory as it is when \<open>k < n\<close>, and otherwise returns true and stores \<open>k - n\<close>.
\<close>

theorem inventory_invariant:
  "(list_all opAmountOk ops \<longrightarrow>
      countsNonNegative (fold applyInventoryOp ops initialInventory))
   \<and> (ivt t = Some (Num k) \<longrightarrow>
        removeFromInventory ivt t n =
          (if k < n then (False, ivt) else (True, ivt(t \<mapsto> Num (k - n)))))"
  by (auto simp: fold_applyInventoryOp_nonneg initialInventory_nonneg
      removeFromInventory_def)

theorem inventory_invariant_witness:
  "list_all opAmountOk [Add GRASS 1, Remove GRASS 1, Remove GRASS 1]
   \<and> countsNonNegative
       (fold applyInventoryOp [Add GRASS 1, Remove GRASS 1, Remove GRASS 1] initialInventory)
   \<and> initialInventory GRASS = Some (Num 0)
   \<and> removeFromInventory initialInventory GRASS 1 = (False, initialInventory)"
proof -
  have a: "list_all opAmountOk [Add GRASS 1, Remove GRASS 1, Remove GRASS 1]"
    by simp
  have b: "initialInventory GRASS = Some (Num 0)"
    by (simp add: initialInventory_def)
  show ?thesis
    using a b
      inventory_invariant [of "[Add GRASS 1, Remove GRASS 1, Remove GRASS 1]"
        initialInventory GRASS 0 1]
    by simp
qed

section \<open>Tree generation: proofs\<close>

lemma setBlock_apply:
  "t \<noteq> AIR \<Longrightarrow>
   setBlock w x y z t c = (if c = (\<lfloor>x\<rfloor>, \<lfloor>y\<rfloor>, \<lfloor>z\<rfloor>) then Some t else w c)"
  by (simp add: setBlock_def)

lemma fold_paint:
  assumes "\<And>a w c. a \<in> set as \<Longrightarrow> step a w c = (if Q a c then Some (v c) else w c)"
  shows "fold step as w c = (if \<exists>a\<in>set as. Q a c then Some (v c) else w c)"
  using assms
proof (induction as arbitrary: w)
  case Nil
  then show ?case by simp
next
  case (Cons a as)
  have "fold step (a # as) w c = fold step as (step a w) c"
    by simp
  also have "\<dots> = (if \<exists>b\<in>set as. Q b c then Some (v c) else step a w c)"
    by (rule Cons.IH) (simp add: Cons.prems)
  also have "step a w c = (if Q a c then Some (v c) else w c)"
    by (simp add: Cons.prems)
  finally show ?case
    by auto
qed

lemma placeLeaf_apply:
  "placeLeaf x y z t ly r lx lz w c =
     (if \<not> (\<bar>lx\<bar> = r \<and> \<bar>lz\<bar> = r) \<and> \<not> (lx = 0 \<and> lz = 0 \<and> ly < y + t)
         \<and> c = (x + lx, ly, z + lz)
      then Some LEAVES else w c)"
  by (simp add: placeLeaf_def setBlock_apply)

lemma square_offsets:
  "(\<exists>lx\<in>set [- r..r]. \<exists>lz\<in>set [- r..r]. P lx lz \<and> (cx, cy, cz) = (x + lx, ly, z + lz))
   = (cy = ly \<and> \<bar>cx - x\<bar> \<le> r \<and> \<bar>cz - z\<bar> \<le> r \<and> P (cx - x) (cz - z))"
proof
  assume "cy = ly \<and> \<bar>cx - x\<bar> \<le> r \<and> \<bar>cz - z\<bar> \<le> r \<and> P (cx - x) (cz - z)"
  then show "\<exists>lx\<in>set [- r..r]. \<exists>lz\<in>set [- r..r].
      P lx lz \<and> (cx, cy, cz) = (x + lx, ly, z + lz)"
    by (intro bexI [of _ "cx - x"] bexI [of _ "cz - z"]) auto
next
  assume "\<exists>lx\<in>set [- r..r]. \<exists>lz\<in>set [- r..r].
      P lx lz \<and> (cx, cy, cz) = (x + lx, ly, z + lz)"
  then obtain lx lz where "lx \<in> set [- r..r]" "lz \<in> set [- r..r]" "P lx lz"
    "cx = x + lx" "cy = ly" "cz = z + lz"
    by auto
  then show "cy = ly \<and> \<bar>cx - x\<bar> \<le> r \<and> \<bar>cz - z\<bar> \<le> r \<and> P (cx - x) (cz - z)"
    by auto
qed

lemma leafLayer_apply:
  assumes "y + t - 2 \<le> ly" "ly < y + t + 2"
  shows "leafLayer x y z t ly w c =
     (if fst (snd c) = ly \<and> spec_leaf_cell x y z t c then Some LEAVES else w c)"
proof -
  obtain cx cy cz where c: "c = (cx, cy, cz)"
    by (cases c) auto
  define r :: int where "r = (if ly < y + t then 2 else 1)"
  let ?P = "\<lambda>lx lz. \<not> (\<bar>lx\<bar> = r \<and> \<bar>lz\<bar> = r) \<and> \<not> (lx = 0 \<and> lz = 0 \<and> ly < y + t)"
  have "leafLayer x y z t ly w c =
      fold (\<lambda>lx. fold (placeLeaf x y z t ly r lx) [- r..r]) [- r..r] w c"
    by (simp add: leafLayer_def r_def)
  also have "\<dots> = (if \<exists>lx\<in>set [- r..r]. \<exists>lz\<in>set [- r..r]. ?P lx lz \<and> c = (x + lx, ly, z + lz)
                    then Some LEAVES else w c)"
    by (rule fold_paint [where v = "\<lambda>_. LEAVES"], rule fold_paint [where v = "\<lambda>_. LEAVES"])
       (simp add: placeLeaf_apply)
  also have "(\<exists>lx\<in>set [- r..r]. \<exists>lz\<in>set [- r..r]. ?P lx lz \<and> c = (x + lx, ly, z + lz))
      = (cy = ly \<and> \<bar>cx - x\<bar> \<le> r \<and> \<bar>cz - z\<bar> \<le> r \<and> ?P (cx - x) (cz - z))"
    unfolding c by (rule square_offsets)
  also have "\<dots> = (fst (snd c) = ly \<and> spec_leaf_cell x y z t c)"
    using assms by (auto simp: c spec_leaf_cell_def r_def Let_def)
  finally show ?thesis .
qed

lemma leaf_layers_apply:
  "fold (leafLayer x y z t) [y + t - 2..y + t + 2 - 1] w c =
     (if spec_leaf_cell x y z t c then Some LEAVES else w c)"
proof -
  have "fold (leafLayer x y z t) [y + t - 2..y + t + 2 - 1] w c =
     (if \<exists>ly\<in>set [y + t - 2..y + t + 2 - 1]. fst (snd c) = ly \<and> spec_leaf_cell x y z t c
      then Some LEAVES else w c)"
    by (rule fold_paint [where v = "\<lambda>_. LEAVES"]) (simp add: leafLayer_apply)
  also have "(\<exists>ly\<in>set [y + t - 2..y + t + 2 - 1]. fst (snd c) = ly \<and> spec_leaf_cell x y z t c)
      = spec_leaf_cell x y z t c"
    by (cases c) (auto simp: spec_leaf_cell_def Let_def)
  finally show ?thesis .
qed

lemma trunk_cells_spec:
  "(\<exists>i\<in>set [0..t - 1]. c = (x, y + i, z)) = spec_trunk_cell x y z t c"
proof (cases c)
  case (fields cx cy cz)
  show ?thesis
  proof
    assume "spec_trunk_cell x y z t c"
    then show "\<exists>i\<in>set [0..t - 1]. c = (x, y + i, z)"
      unfolding fields spec_trunk_cell_def
      by (intro bexI [of _ "cy - y"]) auto
  next
    assume "\<exists>i\<in>set [0..t - 1]. c = (x, y + i, z)"
    then show "spec_trunk_cell x y z t c"
      unfolding fields spec_trunk_cell_def by auto
  qed
qed

lemma trunk_apply:
  "fold (\<lambda>i w. setBlock w (of_int x) (of_int (y + i)) (of_int z) WOOD) is w c =
     (if \<exists>i\<in>set is. c = (x, y + i, z) then Some WOOD else w c)"
  by (rule fold_paint [where v = "\<lambda>_. WOOD" and Q = "\<lambda>i c. c = (x, y + i, z)"])
     (simp add: setBlock_apply)

lemma generateTree_apply:
  "generateTree noise2D w x y z c =
     (if spec_leaf_cell x y z (trunkHeightAt noise2D x z) c then Some LEAVES
      else if spec_trunk_cell x y z (trunkHeightAt noise2D x z) c then Some WOOD
      else w c)"
proof -
  let ?t = "trunkHeightAt noise2D x z"
  let ?w1 = "fold (\<lambda>i w. setBlock w (of_int x) (of_int (y + i)) (of_int z) WOOD) [0..?t - 1] w"
  have "generateTree noise2D w x y z c =
          fold (leafLayer x y z ?t) [y + ?t - 2..y + ?t + 2 - 1] ?w1 c"
    by (simp add: generateTree_def Let_def)
  also have "\<dots> = (if spec_leaf_cell x y z ?t c then Some LEAVES else ?w1 c)"
    by (rule leaf_layers_apply)
  also have "?w1 c = (if spec_trunk_cell x y z ?t c then Some WOOD else w c)"
    by (simp only: trunk_apply trunk_cells_spec)
  finally show ?thesis .
qed

lemma trunk_leaf_disjoint:
  "spec_trunk_cell x y z t c \<Longrightarrow> \<not> spec_leaf_cell x y z t c"
  by (cases c) (auto simp: spec_trunk_cell_def spec_leaf_cell_def Let_def)

text \<open>
  C8. A tree rooted at \<open>(x, y, z)\<close> has trunk height
  \<open>t = 4 + floor (noise (x * 10, z * 10) * 2 + 1)\<close>. After \<open>generateTree\<close> the
  \<open>t\<close> cells \<open>(x, y + i, z)\<close>, \<open>0 \<le> i < t\<close>, hold Wood; the layers
  \<open>y + t - 2 \<le> ly < y + t + 2\<close> hold Leaves at every offset of
  \<open>[-radius, radius]\<^sup>2\<close> (radius 2 below \<open>y + t\<close>, radius 1 from there on) except
  the four corners and except the centre column below \<open>y + t\<close>; every other cell of
  the store is as before.
\<close>

theorem tree_shape:
  "generateTree noise2D w x y z c =
     (let t = 4 + \<lfloor>noise2D (of_int x * 10) (of_int z * 10) * 2 + 1\<rfloor>
      in if spec_trunk_cell x y z t c then Some WOOD
         else if spec_leaf_cell x y z t c then Some LEAVES
         else w c)"
  using trunk_leaf_disjoint [of x y z "trunkHeightAt noise2D x z" c]
  by (auto simp: generateTree_apply Let_def trunkHeightAt_def)


section \<open>Terrain generation: proofs\<close>

lemma strataType_spec: "y \<le> height \<Longrightarrow> strataType y height = spec_strata_type y height"
  by (auto simp: strataType_def spec_strata_type_def)

lemma strataType_not_air [simp]: "strataType y height \<noteq> AIR"
  by (simp add: strataType_def)

lemma writeStrata_apply:
  "writeStrata worldX worldZ height w (cx, cy, cz) =
     (if cx = worldX \<and> cz = worldZ \<and> 0 \<le> cy \<and> cy \<le> height
      then Some (strataType cy height) else w (cx, cy, cz))"
proof -
  have "writeStrata worldX worldZ height w (cx, cy, cz) =
      (if \<exists>y\<in>set [0..height]. (cx, cy, cz) = (worldX, y, worldZ)
       then Some (strataType (fst (snd (cx, cy, cz))) height) else w (cx, cy, cz))"
    unfolding writeStrata_def
    by (rule fold_paint [where v = "\<lambda>c. strataType (fst (snd c)) height"])
       (auto simp: setBlock_apply)
  then show ?thesis
    by auto
qed

lemma generateColumn_apply:
  "generateColumn noise2D worldX worldZ w (cx, cy, cz) =
     (let height = generateHeight noise2D worldX worldZ;
          tree = (shouldPlaceTree noise2D worldX worldZ \<and> height > 5);
          t = trunkHeightAt noise2D worldX worldZ
      in if tree \<and> spec_leaf_cell worldX (height + 1) worldZ t (cx, cy, cz) then Some LEAVES
         else if tree \<and> spec_trunk_cell worldX (height + 1) worldZ t (cx, cy, cz) then Some WOOD
         else if cx = worldX \<and> cz = worldZ \<and> 0 \<le> cy \<and> cy \<le> height
              then Some (strataType cy height)
         else w (cx, cy, cz))"
  by (simp add: generateColumn_def Let_def generateTree_apply writeStrata_apply)

lemma generateColumn_keeps:
  assumes "0 \<le> cy" "cy \<le> generateHeight noise2D cx cz"
    and "strata_or_leaves noise2D (cx, cy, cz) (w (cx, cy, cz))"
  shows "strata_or_leaves noise2D (cx, cy, cz)
           (generateColumn noise2D worldX worldZ w (cx, cy, cz))"
  using assms
  by (auto simp: generateColumn_apply Let_def strata_or_leaves_def spec_trunk_cell_def)

lemma generateColumn_sets:
  assumes "0 \<le> cy" "cy \<le> generateHeight noise2D cx cz"
  shows "strata_or_leaves noise2D (cx, cy, cz) (generateColumn noise2D cx cz w (cx, cy, cz))"
  using assms
  by (auto simp: generateColumn_apply Let_def strata_or_leaves_def spec_trunk_cell_def)

lemma fold_keeps:
  assumes "\<And>a s. P s \<Longrightarrow> P (step a s)" and "P s"
  shows "P (fold step as s)"
  using assms by (induction as arbitrary: s) auto

lemma fold_establishes:
  assumes "b \<in> set as" and "\<And>s. P (step b s)" and "\<And>a s. P s \<Longrightarrow> P (step a s)"
  shows "P (fold step as s)"
  using assms(1)
proof (induction as arbitrary: s)
  case Nil
  then show ?case by simp
next
  case (Cons a as)
  show ?case
  proof (cases "a = b")
    case True
    have "P (fold step as (step b s))"
      by (rule fold_keeps [where P = P and step = step]) (simp_all add: assms(2) assms(3))
    with True show ?thesis by simp
  next
    case False
    with Cons.prems have "b \<in> set as" by simp
    then have "P (fold step as (step a s))"
      by (rule Cons.IH)
    then show ?thesis by simp
  qed
qed

lemma generateChunkData_strata:
  assumes x: "0 \<le> x" "x < CHUNK_SIZE" and z: "0 \<le> z" "z < CHUNK_SIZE"
    and y: "0 \<le> y" "y \<le> generateHeight noise2D (chunkX * CHUNK_SIZE + x) (chunkZ * CHUNK_SIZE + z)"
  shows "strata_or_leaves noise2D (chunkX * CHUNK_SIZE + x, y, chunkZ * CHUNK_SIZE + z)
     (generateChunkData noise2D chunkX chunkZ w
        (chunkX * CHUNK_SIZE + x, y, chunkZ * CHUNK_SIZE + z))"
proof -
  let ?sx = "chunkX * CHUNK_SIZE" and ?sz = "chunkZ * CHUNK_SIZE"
  let ?c = "(?sx + x, y, ?sz + z)"
  let ?P = "\<lambda>w. strata_or_leaves noise2D ?c (w ?c)"
  let ?col = "\<lambda>x z. generateColumn noise2D (?sx + x) (?sz + z)"
  have keep: "?P (?col x' z' w)" if "?P w" for x' z' w
    using y that by (rule generateColumn_keeps)
  have row_keep: "?P (fold (?col x') [0..CHUNK_SIZE - 1] w)" if "?P w" for x' w
    by (rule fold_keeps [where P = ?P and step = "?col x'"]) (simp_all add: keep that)
  have row_set: "?P (fold (?col x) [0..CHUNK_SIZE - 1] w)" for w
  proof (rule fold_establishes [where P = ?P and b = z])
    show "z \<in> set [0..CHUNK_SIZE - 1]"
      using z by simp
    show "?P (?col x z s)" for s
      using y by (rule generateColumn_sets)
    show "?P (?col x a s)" if "?P s" for a s
      using that by (rule keep)
  qed
  have "?P (fold (\<lambda>x. fold (?col x) [0..CHUNK_SIZE - 1]) [0..CHUNK_SIZE - 1] w)"
  proof (rule fold_establishes [where P = ?P and b = x])
    show "x \<in> set [0..CHUNK_SIZE - 1]"
      using x by simp
    show "?P (fold (?col x) [0..CHUNK_SIZE - 1] s)" for s
      by (rule row_set)
    show "?P (fold (?col a) [0..CHUNK_SIZE - 1] s)" if "?P s" for a s
      using that by (rule row_keep)
  qed
  then show ?thesis
    by (simp add: generateChunkData_def Let_def)
qed

section \<open>Generation only adds to the store\<close>

lemma fold_overriding:
  assumes "\<And>a (w::world). step a w = w ++ step a Map.empty"
  shows "fold step as w = w ++ fold step as Map.empty"
proof (induction as arbitrary: w)
  case Nil
  then show ?case by simp
next
  case (Cons a as)
  have "fold step (a # as) w = fold step as (step a w)"
    by simp
  also have "\<dots> = step a w ++ fold step as Map.empty"
    by (rule Cons.IH)
  also have "\<dots> = w ++ (step a Map.empty ++ fold step as Map.empty)"
    by (subst assms) simp
  also have "step a Map.empty ++ fold step as Map.empty = fold step as (step a Map.empty)"
    by (rule Cons.IH [symmetric])
  finally show ?case by simp
qed

lemma placeLeaf_overriding:
  "placeLeaf x y z t ly r lx lz w = w ++ placeLeaf x y z t ly r lx lz Map.empty"
  by (simp add: placeLeaf_def setBlock_def)

lemma leafLayer_overriding:
  "leafLayer x y z t ly w = w ++ leafLayer x y z t ly Map.empty"
  unfolding leafLayer_def Let_def
  by (rule fold_overriding, rule fold_overriding, rule placeLeaf_overriding)

lemma generateTree_overriding:
  "generateTree noise2D w x y z = w ++ generateTree noise2D Map.empty x y z"
proof -
  let ?t = "trunkHeightAt noise2D x z"
  let ?trunk = "fold (\<lambda>i w. setBlock w (of_int x) (of_int (y + i)) (of_int z) WOOD) [0..?t - 1]"
  let ?leaves = "fold (leafLayer x y z ?t) [y + ?t - 2..y + ?t + 2 - 1]"
  have trunk: "?trunk w = w ++ ?trunk Map.empty" for w
    by (rule fold_overriding) (simp add: setBlock_def)
  have leaves: "?leaves w = w ++ ?leaves Map.empty" for w
    by (rule fold_overriding) (rule leafLayer_overriding)
  have "generateTree noise2D w x y z = ?leaves (?trunk w)" for w
    by (simp add: generateTree_def Let_def)
  moreover have "?leaves (?trunk w) = w ++ ?leaves (?trunk Map.empty)"
    by (metis leaves trunk map_add_assoc)
  ultimately show ?thesis
    by simp
qed

lemma writeStrata_overriding:
  "writeStrata worldX worldZ height w = w ++ writeStrata worldX worldZ height Map.empty"
  unfolding writeStrata_def
  by (rule fold_overriding) (simp add: setBlock_def)

lemma generateColumn_overriding:
  "generateColumn noise2D worldX worldZ w = w ++ generateColumn noise2D worldX worldZ Map.empty"
proof -
  let ?h = "generateHeight noise2D worldX worldZ"
  have "generateTree noise2D (writeStrata worldX worldZ ?h w) worldX (?h + 1) worldZ =
      w ++ generateTree noise2D (writeStrata worldX worldZ ?h Map.empty) worldX (?h + 1) worldZ"
    by (metis generateTree_overriding writeStrata_overriding map_add_assoc)
  then show ?thesis
    using writeStrata_overriding [of worldX worldZ ?h w]
    by (simp add: generateColumn_def Let_def)
qed

lemma generateChunkData_overriding:
  "generateChunkData noise2D chunkX chunkZ w = w ++ generateChunkData noise2D chunkX chunkZ Map.empty"
  unfolding generateChunkData_def Let_def
  by (rule fold_overriding, rule fold_overriding, rule generateColumn_overriding)


text \<open>With the flat noise a chunk is ten layers of strata under Grass, and nothing else.\<close>

lemma generateHeight_flat [simp]: "generateHeight flatNoise x z = 10"
  by (simp add: generateHeight_def flatNoise_def)

lemma shouldPlaceTree_flat [simp]: "\<not> shouldPlaceTree flatNoise x z"
  by (simp add: shouldPlaceTree_def flatNoise_def)

lemma generateColumn_flat:
  "generateColumn flatNoise worldX worldZ w c =
     (if fst c = worldX \<and> snd (snd c) = worldZ \<and> 0 \<le> fst (snd c) \<and> fst (snd c) \<le> 10
      then Some (strataType (fst (snd c)) 10) else w c)"
  by (cases c) (simp add: generateColumn_def writeStrata_apply)

lemma generateChunkData_flat:
  "generateChunkData flatNoise chunkX chunkZ w (cx, cy, cz) =
     (if chunkX * CHUNK_SIZE \<le> cx \<and> cx < chunkX * CHUNK_SIZE + CHUNK_SIZE
         \<and> chunkZ * CHUNK_SIZE \<le> cz \<and> cz < chunkZ * CHUNK_SIZE + CHUNK_SIZE
         \<and> 0 \<le> cy \<and> cy \<le> 10
      then Some (strataType cy 10) else w (cx, cy, cz))"
proof -
  let ?sx = "chunkX * CHUNK_SIZE" and ?sz = "chunkZ * CHUNK_SIZE"
  let ?Q = "\<lambda>x z c. fst c = ?sx + x \<and> snd (snd c) = ?sz + z \<and> 0 \<le> fst (snd c) \<and> fst (snd c) \<le> 10"
  have "generateChunkData flatNoise chunkX chunkZ w (cx, cy, cz) =
      (if \<exists>x\<in>set [0..CHUNK_SIZE - 1]. \<exists>z\<in>set [0..CHUNK_SIZE - 1]. ?Q x z (cx, cy, cz)
       then Some (strataType (fst (snd (cx, cy, cz))) 10) else w (cx, cy, cz))"
    unfolding generateChunkData_def Let_def
    by (rule fold_paint [where v = "\<lambda>c. strataType (fst (snd c)) 10"],
        rule fold_paint [where v = "\<lambda>c. strataType (fst (snd c)) 10"])
       (rule generateColumn_flat)
  also have "(\<exists>x\<in>set [0..CHUNK_SIZE - 1]. \<exists>z\<in>set [0..CHUNK_SIZE - 1]. ?Q x z (cx, cy, cz))
      = (?sx \<le> cx \<and> cx < ?sx + CHUNK_SIZE \<and> ?sz \<le> cz \<and> cz < ?sz + CHUNK_SIZE
          \<and> 0 \<le> cy \<and> cy \<le> 10)"
  proof
    assume "?sx \<le> cx \<and> cx < ?sx + CHUNK_SIZE \<and> ?sz \<le> cz \<and> cz < ?sz + CHUNK_SIZE
          \<and> 0 \<le> cy \<and> cy \<le> 10"
    then show "\<exists>x\<in>set [0..CHUNK_SIZE - 1]. \<exists>z\<in>set [0..CHUNK_SIZE - 1]. ?Q x z (cx, cy, cz)"
      by (intro bexI [of _ "cx - ?sx"] bexI [of _ "cz - ?sz"]) auto
  next
    assume "\<exists>x\<in>set [0..CHUNK_SIZE - 1]. \<exists>z\<in>set [0..CHUNK_SIZE - 1]. ?Q x z (cx, cy, cz)"
    then show "?sx \<le> cx \<and> cx < ?sx + CHUNK_SIZE \<and> ?sz \<le> cz \<and> cz < ?sz + CHUNK_SIZE
          \<and> 0 \<le> cy \<and> cy \<le> 10"
      by auto
  qed
  finally show ?thesis
    by simp
qed

section \<open>Terrain strata over a chunk: proofs\<close>

lemma fold_fold_concat: "fold (\<lambda>a. fold f (l a)) as = fold f (concat (map l as))"
  by (induction as) (simp_all add: fun_eq_iff)

lemma set_concat_map2:
  "set (concat (map (\<lambda>x. map (f x) zs) xs)) = {f x z | x z. x \<in> set xs \<and> z \<in> set zs}"
  by (simp add: set_eq_iff) blast

lemma find_snoc:
  "find P (xs @ [a]) = (case find P xs of None \<Rightarrow> (if P a then Some a else None) | Some x \<Rightarrow> Some x)"
  by (induction xs) simp_all

lemma fold_last_writer:
  assumes "\<And>a w. step a w c = (if W a then Some (V a) else w c)"
  shows "fold step as w c =
     (case find W (rev as) of None \<Rightarrow> w c | Some a \<Rightarrow> Some (V a))"
proof (induction as arbitrary: w)
  case Nil
  then show ?case by simp
next
  case (Cons a as)
  have "fold step (a # as) w c = fold step as (step a w) c"
    by simp
  also have "\<dots> = (case find W (rev as) of None \<Rightarrow> step a w c | Some b \<Rightarrow> Some (V b))"
    by (rule Cons.IH)
  finally show ?case
    by (simp add: find_snoc assms split: option.splits)
qed

lemma generateColumn_writes:
  "generateColumn noise2D worldX worldZ w c =
     (if columnWrites noise2D (worldX, worldZ) c
      then Some (columnValue noise2D (worldX, worldZ) c) else w c)"
proof (cases c)
  case (fields cx cy cz)
  show ?thesis
    unfolding fields
    by (auto simp: generateColumn_apply Let_def columnWrites_def columnValue_def
        tree_leaf_cell_def tree_trunk_cell_def strata_cell_def treeAt_def strataType_spec)
qed

lemma generateChunkData_columns:
  "generateChunkData noise2D chunkX chunkZ =
     fold (\<lambda>col. generateColumn noise2D (fst col) (snd col)) (chunkColumns chunkX chunkZ)"
proof -
  let ?f = "\<lambda>col. generateColumn noise2D (fst col) (snd col)"
  let ?sx = "chunkX * CHUNK_SIZE" and ?sz = "chunkZ * CHUNK_SIZE"
  have row: "fold (\<lambda>z. generateColumn noise2D (?sx + x) (?sz + z)) zs =
      fold ?f (map (\<lambda>z. (?sx + x, ?sz + z)) zs)" for x zs
    by (simp add: fold_map o_def)
  show ?thesis
    by (rule ext) (simp only: generateChunkData_def Let_def row fold_fold_concat chunkColumns_def)
qed

lemma generateChunkData_last_writer:
  "generateChunkData noise2D chunkX chunkZ w c =
     (case find (\<lambda>col. columnWrites noise2D col c) (rev (chunkColumns chunkX chunkZ)) of
        None \<Rightarrow> w c
      | Some col \<Rightarrow> Some (columnValue noise2D col c))"
  unfolding generateChunkData_columns
  by (rule fold_last_writer) (simp add: generateColumn_writes)


lemma find_SomeD: "find P xs = Some a \<Longrightarrow> a \<in> set xs \<and> P a"
  by (induction xs) (auto split: if_splits)

lemma column_in_chunk:
  "0 \<le> x \<Longrightarrow> x < CHUNK_SIZE \<Longrightarrow> 0 \<le> z \<Longrightarrow> z < CHUNK_SIZE \<Longrightarrow>
   (chunkX * CHUNK_SIZE + x, chunkZ * CHUNK_SIZE + z) \<in> set (chunkColumns chunkX chunkZ)"
  unfolding chunkColumns_def set_concat_map2 by auto

lemma generateChunkData_strata_cell:
  assumes x: "0 \<le> x" "x < CHUNK_SIZE" and z: "0 \<le> z" "z < CHUNK_SIZE"
    and y: "0 \<le> y" "y \<le> generateHeight noise2D (chunkX * CHUNK_SIZE + x) (chunkZ * CHUNK_SIZE + z)"
  shows "generateChunkData noise2D chunkX chunkZ w
           (chunkX * CHUNK_SIZE + x, y, chunkZ * CHUNK_SIZE + z) =
         Some (spec_strata_type y
           (generateHeight noise2D (chunkX * CHUNK_SIZE + x) (chunkZ * CHUNK_SIZE + z)))
     \<or> generateChunkData noise2D chunkX chunkZ w
           (chunkX * CHUNK_SIZE + x, y, chunkZ * CHUNK_SIZE + z) = Some LEAVES
       \<and> chunk_leaf_cell noise2D chunkX chunkZ
           (chunkX * CHUNK_SIZE + x, y, chunkZ * CHUNK_SIZE + z)"
proof -
  let ?B = "(chunkX * CHUNK_SIZE + x, chunkZ * CHUNK_SIZE + z)"
  let ?c = "(chunkX * CHUNK_SIZE + x, y, chunkZ * CHUNK_SIZE + z)"
  let ?cols = "chunkColumns chunkX chunkZ"
  let ?P = "\<lambda>col. columnWrites noise2D col ?c"
  have B: "?B \<in> set ?cols"
    using x z by (rule column_in_chunk)
  have "strata_cell noise2D ?B ?c"
    using y by (simp add: strata_cell_def)
  then have "?P ?B"
    by (simp add: columnWrites_def)
  with B have "find ?P (rev ?cols) \<noteq> None"
    by (auto simp: find_None_iff)
  then obtain A where A: "find ?P (rev ?cols) = Some A"
    by auto
  then have mem: "A \<in> set ?cols" and wr: "?P A"
    by (auto dest: find_SomeD)
  have val: "generateChunkData noise2D chunkX chunkZ w ?c = Some (columnValue noise2D A ?c)"
    by (simp add: generateChunkData_last_writer A)
  show ?thesis
  proof (cases "tree_leaf_cell noise2D A ?c")
    case True
    with mem have "chunk_leaf_cell noise2D chunkX chunkZ ?c"
      by (auto simp: chunk_leaf_cell_def list_ex_iff)
    with True val show ?thesis
      by (simp add: columnValue_def)
  next
    case False
    have no_trunk: "\<not> tree_trunk_cell noise2D A ?c"
      using y by (cases A) (auto simp: tree_trunk_cell_def spec_trunk_cell_def)
    with False wr have "strata_cell noise2D A ?c"
      by (simp add: columnWrites_def)
    then have "A = ?B"
      by (cases A) (simp add: strata_cell_def)
    with False no_trunk val show ?thesis
      by (simp add: columnValue_def)
  qed
qed

lemma generateChunkData_other_cell:
  assumes "\<not> chunk_strata_cell noise2D chunkX chunkZ c"
  shows "generateChunkData noise2D chunkX chunkZ w c = Some LEAVES
           \<and> chunk_leaf_cell noise2D chunkX chunkZ c
     \<or> generateChunkData noise2D chunkX chunkZ w c = Some WOOD
           \<and> chunk_trunk_cell noise2D chunkX chunkZ c
     \<or> generateChunkData noise2D chunkX chunkZ w c = w c
           \<and> \<not> chunk_leaf_cell noise2D chunkX chunkZ c
           \<and> \<not> chunk_trunk_cell noise2D chunkX chunkZ c"
proof -
  let ?cols = "chunkColumns chunkX chunkZ"
  let ?P = "\<lambda>col. columnWrites noise2D col c"
  have no_strata: "\<not> strata_cell noise2D A c" if "A \<in> set ?cols" for A
    using assms that by (auto simp: chunk_strata_cell_def list_ex_iff)
  show ?thesis
  proof (cases "find ?P (rev ?cols)")
    case None
    then have "\<not> (\<exists>col. col \<in> set ?cols \<and> columnWrites noise2D col c)"
      by (simp add: find_None_iff)
    then have "\<not> columnWrites noise2D A c" if "A \<in> set ?cols" for A
      using that by blast
    then have "\<not> chunk_leaf_cell noise2D chunkX chunkZ c"
      "\<not> chunk_trunk_cell noise2D chunkX chunkZ c"
      by (auto simp: chunk_leaf_cell_def chunk_trunk_cell_def list_ex_iff columnWrites_def)
    with None show ?thesis
      by (simp add: generateChunkData_last_writer)
  next
    case (Some A)
    then have mem: "A \<in> set ?cols" and wr: "?P A"
      by (auto dest: find_SomeD)
    have val: "generateChunkData noise2D chunkX chunkZ w c = Some (columnValue noise2D A c)"
      by (simp add: generateChunkData_last_writer Some)
    show ?thesis
    proof (cases "tree_leaf_cell noise2D A c")
      case True
      with mem have "chunk_leaf_cell noise2D chunkX chunkZ c"
        by (auto simp: chunk_leaf_cell_def list_ex_iff)
      with True val show ?thesis
        by (simp add: columnValue_def)
    next
      case False
      with wr no_strata [OF mem] have t: "tree_trunk_cell noise2D A c"
        by (simp add: columnWrites_def)
      with mem have "chunk_trunk_cell noise2D chunkX chunkZ c"
        by (auto simp: chunk_trunk_cell_def list_ex_iff)
      with False t val show ?thesis
        by (simp add: columnValue_def)
    qed
  qed
qed


lemma above_height_not_strata:
  "generateHeight noise2D cx cz < cy \<Longrightarrow> \<not> chunk_strata_cell noise2D chunkX chunkZ (cx, cy, cz)"
  by (auto simp: chunk_strata_cell_def list_ex_iff strata_cell_def)

lemma no_trees_flat:
  "\<not> chunk_leaf_cell flatNoise chunkX chunkZ c" "\<not> chunk_trunk_cell flatNoise chunkX chunkZ c"
  by (simp_all add: chunk_leaf_cell_def chunk_trunk_cell_def list_ex_iff tree_leaf_cell_def
      tree_trunk_cell_def treeAt_def split: prod.splits)

text \<open>
  C4. The strata loop of a column writes exactly the cells \<open>(worldX, y, worldZ)\<close> with
  \<open>0 \<le> y \<le> height\<close>: Grass at \<open>y = height\<close>, Dirt for
  \<open>height - 3 < y < height\<close>, Stone below, and no other cell. After
  \<open>generateChunkData\<close> a cell holds what the last column that writes it leaves there,
  or what it held when no column of the chunk writes it. So every cell \<open>0 \<le> y \<le> height\<close>
  of every column of the footprint, with the height \<open>generateHeight\<close> computes for the
  column, holds its strata type, unless it is a leaf cell of a tree generated in the chunk
  and holds Leaves. A cell above the height of its column is no strata cell; and a cell
  that is no strata cell of the chunk holds Leaves or Wood of a tree generated in the
  chunk, or else what it held before: no strata block is written there.
\<close>

theorem terrain_strata:
  "writeStrata worldX worldZ height w (cx, cy, cz) =
     (if cx = worldX \<and> cz = worldZ \<and> 0 \<le> cy \<and> cy \<le> height
      then Some (spec_strata_type cy height) else w (cx, cy, cz))
   \<and> generateChunkData noise2D chunkX chunkZ w c =
       (case find (\<lambda>col. columnWrites noise2D col c) (rev (chunkColumns chunkX chunkZ)) of
          None \<Rightarrow> w c
        | Some col \<Rightarrow> Some (columnValue noise2D col c))
   \<and> (0 \<le> x \<and> x < CHUNK_SIZE \<and> 0 \<le> z \<and> z < CHUNK_SIZE \<and> 0 \<le> y
        \<and> y \<le> generateHeight noise2D (chunkX * CHUNK_SIZE + x) (chunkZ * CHUNK_SIZE + z) \<longrightarrow>
      generateChunkData noise2D chunkX chunkZ w
          (chunkX * CHUNK_SIZE + x, y, chunkZ * CHUNK_SIZE + z) =
        Some (spec_strata_type y
          (generateHeight noise2D (chunkX * CHUNK_SIZE + x) (chunkZ * CHUNK_SIZE + z)))
      \<or> generateChunkData noise2D chunkX chunkZ w
            (chunkX * CHUNK_SIZE + x, y, chunkZ * CHUNK_SIZE + z) = Some LEAVES
        \<and> chunk_leaf_cell noise2D chunkX chunkZ
            (chunkX * CHUNK_SIZE + x, y, chunkZ * CHUNK_SIZE + z))
   \<and> (generateHeight noise2D ax az < ay \<longrightarrow>
        \<not> chunk_strata_cell noise2D chunkX chunkZ (ax, ay, az))
   \<and> (\<not> chunk_strata_cell noise2D chunkX chunkZ c \<longrightarrow>
        generateChunkData noise2D chunkX chunkZ w c = Some LEAVES
          \<and> chunk_leaf_cell noise2D chunkX chunkZ c
        \<or> generateChunkData noise2D chunkX chunkZ w c = Some WOOD
          \<and> chunk_trunk_cell noise2D chunkX chunkZ c
        \<or> generateChunkData noise2D chunkX chunkZ w c = w c
          \<and> \<not> chunk_leaf_cell noise2D chunkX chunkZ c
          \<and> \<not> chunk_trunk_cell noise2D chunkX chunkZ c)"
proof (intro conjI impI)
  show "writeStrata worldX worldZ height w (cx, cy, cz) =
     (if cx = worldX \<and> cz = worldZ \<and> 0 \<le> cy \<and> cy \<le> height
      then Some (spec_strata_type cy height) else w (cx, cy, cz))"
    by (simp add: writeStrata_apply strataType_spec)
next
  show "generateChunkData noise2D chunkX chunkZ w c =
       (case find (\<lambda>col. columnWrites noise2D col c) (rev (chunkColumns chunkX chunkZ)) of
          None \<Rightarrow> w c
        | Some col \<Rightarrow> Some (columnValue noise2D col c))"
    by (rule generateChunkData_last_writer)
next
  let ?h = "generateHeight noise2D (chunkX * CHUNK_SIZE + x) (chunkZ * CHUNK_SIZE + z)"
  assume "0 \<le> x \<and> x < CHUNK_SIZE \<and> 0 \<le> z \<and> z < CHUNK_SIZE \<and> 0 \<le> y \<and> y \<le> ?h"
  then show "generateChunkData noise2D chunkX chunkZ w
          (chunkX * CHUNK_SIZE + x, y, chunkZ * CHUNK_SIZE + z) = Some (spec_strata_type y ?h)
      \<or> generateChunkData noise2D chunkX chunkZ w
            (chunkX * CHUNK_SIZE + x, y, chunkZ * CHUNK_SIZE + z) = Some LEAVES
        \<and> chunk_leaf_cell noise2D chunkX chunkZ
            (chunkX * CHUNK_SIZE + x, y, chunkZ * CHUNK_SIZE + z)"
    by (intro generateChunkData_strata_cell) simp_all
next
  assume "generateHeight noise2D ax az < ay"
  then show "\<not> chunk_strata_cell noise2D chunkX chunkZ (ax, ay, az)"
    by (rule above_height_not_strata)
next
  assume "\<not> chunk_strata_cell noise2D chunkX chunkZ c"
  then show "generateChunkData noise2D chunkX chunkZ w c = Some LEAVES
          \<and> chunk_leaf_cell noise2D chunkX chunkZ c
        \<or> generateChunkData noise2D chunkX chunkZ w c = Some WOOD
          \<and> chunk_trunk_cell noise2D chunkX chunkZ c
        \<or> generateChunkData noise2D chunkX chunkZ w c = w c
          \<and> \<not> chunk_leaf_cell noise2D chunkX chunkZ c
          \<and> \<not> chunk_trunk_cell noise2D chunkX chunkZ c"
    by (rule generateChunkData_other_cell)
qed

theorem terrain_strata_witness:
  "(0::int) \<le> 3 \<and> (3::int) < CHUNK_SIZE \<and> (0::int) \<le> 5 \<and> (5::int) < CHUNK_SIZE \<and> (0::int) \<le> 10
   \<and> 10 \<le> generateHeight flatNoise (2 * CHUNK_SIZE + 3) (- 1 * CHUNK_SIZE + 5)
   \<and> generateChunkData flatNoise 2 (- 1) [(35, 11, - 11) \<mapsto> WOOD]
        (2 * CHUNK_SIZE + 3, 10, - 1 * CHUNK_SIZE + 5) = Some GRASS
   \<and> generateHeight flatNoise 35 (- 11) < 11
   \<and> \<not> chunk_strata_cell flatNoise 2 (- 1) (35, 11, - 11)
   \<and> generateChunkData flatNoise 2 (- 1) [(35, 11, - 11) \<mapsto> WOOD] (35, 11, - 11) = Some WOOD"
proof -
  let ?w = "[(35::int, 11::int, - 11::int) \<mapsto> WOOD]"
  have a: "(0::int) \<le> 3 \<and> (3::int) < CHUNK_SIZE \<and> (0::int) \<le> 5 \<and> (5::int) < CHUNK_SIZE
      \<and> (0::int) \<le> 10
      \<and> 10 \<le> generateHeight flatNoise (2 * CHUNK_SIZE + 3) (- 1 * CHUNK_SIZE + 5)"
    by (simp add: CHUNK_SIZE_def)
  have b: "generateHeight flatNoise 35 (- 11) < 11"
    by simp
  note inst = terrain_strata [where noise2D = flatNoise and chunkX = 2 and chunkZ = "- 1"
      and w = ?w and x = 3 and z = 5 and y = 10 and ax = 35 and ay = 11 and az = "- 11"
      and c = "(35, 11, - 11)"]
  from inst a have "generateChunkData flatNoise 2 (- 1) ?w
        (2 * CHUNK_SIZE + 3, 10, - 1 * CHUNK_SIZE + 5) =
      Some (spec_strata_type 10 (generateHeight flatNoise (2 * CHUNK_SIZE + 3) (- 1 * CHUNK_SIZE + 5)))
    \<or> generateChunkData flatNoise 2 (- 1) ?w
        (2 * CHUNK_SIZE + 3, 10, - 1 * CHUNK_SIZE + 5) = Some LEAVES
      \<and> chunk_leaf_cell flatNoise 2 (- 1) (2 * CHUNK_SIZE + 3, 10, - 1 * CHUNK_SIZE + 5)"
    by blast
  then have 1: "generateChunkData flatNoise 2 (- 1) ?w
        (2 * CHUNK_SIZE + 3, 10, - 1 * CHUNK_SIZE + 5) = Some GRASS"
    by (simp add: no_trees_flat spec_strata_type_def)
  from inst b have 2: "\<not> chunk_strata_cell flatNoise 2 (- 1) (35, 11, - 11)"
    by blast
  with inst have "generateChunkData flatNoise 2 (- 1) ?w (35, 11, - 11) = Some LEAVES
          \<and> chunk_leaf_cell flatNoise 2 (- 1) (35, 11, - 11)
        \<or> generateChunkData flatNoise 2 (- 1) ?w (35, 11, - 11) = Some WOOD
          \<and> chunk_trunk_cell flatNoise 2 (- 1) (35, 11, - 11)
        \<or> generateChunkData flatNoise 2 (- 1) ?w (35, 11, - 11) = ?w (35, 11, - 11)
          \<and> \<not> chunk_leaf_cell flatNoise 2 (- 1) (35, 11, - 11)
          \<and> \<not> chunk_trunk_cell flatNoise 2 (- 1) (35, 11, - 11)"
    by blast
  then have 3: "generateChunkData flatNoise 2 (- 1) ?w (35, 11, - 11) = Some WOOD"
    by (simp add: no_trees_flat)
  from a b 1 2 3 show ?thesis
    by blast
qed

section \<open>Loading and unloading chunks: proofs\<close>

lemma mset_sceneRemove: "mset (sceneRemove ms sc) = mset sc - mset ms"
  unfolding sceneRemove_def
  by (induction ms arbitrary: sc) simp_all

lemma distinct_sceneRemove: "distinct sc \<Longrightarrow> distinct (sceneRemove ms sc)"
  unfolding sceneRemove_def
  by (induction ms arbitrary: sc) simp_all

lemma set_sceneRemove: "distinct sc \<Longrightarrow> set (sceneRemove ms sc) = set sc - set ms"
  unfolding sceneRemove_def
  by (induction ms arbitrary: sc) auto

lemma removeChunk_loaded:
  "map_of (chunks g) (chunkX, chunkZ) = Some chunk \<Longrightarrow>
   removeChunk g chunkX chunkZ =
     g\<lparr>scene := sceneRemove (chunk_meshes chunk) (scene g),
       chunks := AList.delete (chunkX, chunkZ) (chunks g)\<rparr>"
  by (simp add: removeChunk_def)

lemma worldData_removeChunk [simp]: "worldData (removeChunk g chunkX chunkZ) = worldData g"
  by (simp add: removeChunk_def Let_def split: option.splits)

lemma loadedChunks_removeChunk:
  "loadedChunks (removeChunk g chunkX chunkZ) = loadedChunks g - {(chunkX, chunkZ)}"
  by (auto simp: removeChunk_def Let_def loadedChunks_def AList.delete_conv'
      split: option.splits if_splits)

lemma generateChunk_loaded:
  "map_of (chunks g) (chunkX, chunkZ) \<noteq> None \<Longrightarrow> generateChunk noise2D g chunkX chunkZ = g"
  by (simp add: generateChunk_def)

lemma worldData_generateChunk:
  "map_of (chunks g) (chunkX, chunkZ) = None \<Longrightarrow>
   worldData (generateChunk noise2D g chunkX chunkZ) =
     generateChunkData noise2D chunkX chunkZ (worldData g)"
  by (simp add: generateChunk_def Let_def)

lemma removeChunk_unloads: "map_of (chunks (removeChunk g chunkX chunkZ)) (chunkX, chunkZ) = None"
  by (simp add: removeChunk_def Let_def AList.delete_conv' split: option.splits)

lemma exampleGame_loaded: "map_of (chunks exampleGame) (2, 3) = Some exampleChunk"
  by (simp add: exampleGame_def initialGame_def)

text \<open>
  C9. Unloading a loaded chunk removes its key from the loaded set and nothing else,
  takes each of its meshes out of the scene once (all of them, when no mesh is in the
  scene twice), and leaves the world mapping as it is.
\<close>

theorem unload_frame:
  assumes "map_of (chunks g) (chunkX, chunkZ) = Some chunk"
  shows "loadedChunks (removeChunk g chunkX chunkZ) = loadedChunks g - {(chunkX, chunkZ)}
    \<and> mset (scene (removeChunk g chunkX chunkZ)) = mset (scene g) - mset (chunk_meshes chunk)
    \<and> (distinct (scene g) \<longrightarrow>
         set (scene (removeChunk g chunkX chunkZ)) = set (scene g) - set (chunk_meshes chunk))
    \<and> worldData (removeChunk g chunkX chunkZ) = worldData g"
proof -
  have "scene (removeChunk g chunkX chunkZ) = sceneRemove (chunk_meshes chunk) (scene g)"
    using assms by (simp add: removeChunk_loaded)
  then show ?thesis
    by (simp add: loadedChunks_removeChunk mset_sceneRemove set_sceneRemove)
qed

theorem unload_frame_witness:
  "map_of (chunks exampleGame) (2, 3) = Some exampleChunk
   \<and> loadedChunks (removeChunk exampleGame 2 3) = loadedChunks exampleGame - {(2, 3)}
   \<and> mset (scene (removeChunk exampleGame 2 3)) =
       mset (scene exampleGame) - mset (chunk_meshes exampleChunk)
   \<and> distinct (scene exampleGame)
   \<and> set (scene (removeChunk exampleGame 2 3)) =
       set (scene exampleGame) - set (chunk_meshes exampleChunk)
   \<and> worldData (removeChunk exampleGame 2 3) = worldData exampleGame"
proof -
  have d: "distinct (scene exampleGame)"
    by (simp add: exampleGame_def initialGame_def)
  show ?thesis
    using unload_frame [OF exampleGame_loaded] d exampleGame_loaded
    by blast
qed

text \<open>
  C10. \<open>generateChunk\<close> returns the state as it is when the chunk key is loaded, and
  otherwise runs terrain generation on the store. \<open>removeChunk\<close> takes the key out of
  the loaded set and keeps the store, so loading the chunk again runs
  \<open>generateChunkData\<close> over the retained store: the result is the old store overridden
  by what generation writes on an empty store. Every strata cell of the chunk (also one
  the player had broken) then holds its strata type, or Leaves where the canopy of a
  generated tree reaches it, and every cell that generation does not write (such as a
  block the player placed there) holds what it held.
\<close>

theorem reload_regenerates:
  "(if (chunkX, chunkZ) \<in> loadedChunks g then generateChunk noise2D g chunkX chunkZ = g
    else worldData (generateChunk noise2D g chunkX chunkZ) =
           generateChunkData noise2D chunkX chunkZ (worldData g))
   \<and> (chunkX, chunkZ) \<notin> loadedChunks (removeChunk g chunkX chunkZ)
   \<and> worldData (removeChunk g chunkX chunkZ) = worldData g
   \<and> worldData (generateChunk noise2D (removeChunk g chunkX chunkZ) chunkX chunkZ) =
        generateChunkData noise2D chunkX chunkZ (worldData g)
   \<and> worldData (generateChunk noise2D (removeChunk g chunkX chunkZ) chunkX chunkZ) =
        worldData g ++ generateChunkData noise2D chunkX chunkZ Map.empty
   \<and> (0 \<le> x \<and> x < CHUNK_SIZE \<and> 0 \<le> z \<and> z < CHUNK_SIZE \<and> 0 \<le> y
        \<and> y \<le> generateHeight noise2D (chunkX * CHUNK_SIZE + x) (chunkZ * CHUNK_SIZE + z) \<longrightarrow>
      worldData (generateChunk noise2D (removeChunk g chunkX chunkZ) chunkX chunkZ)
          (chunkX * CHUNK_SIZE + x, y, chunkZ * CHUNK_SIZE + z)
        = generateChunkData noise2D chunkX chunkZ Map.empty
            (chunkX * CHUNK_SIZE + x, y, chunkZ * CHUNK_SIZE + z)
      \<and> worldData (generateChunk noise2D (removeChunk g chunkX chunkZ) chunkX chunkZ)
          (chunkX * CHUNK_SIZE + x, y, chunkZ * CHUNK_SIZE + z)
        \<in> {Some (spec_strata_type y
                   (generateHeight noise2D (chunkX * CHUNK_SIZE + x) (chunkZ * CHUNK_SIZE + z))),
            Some LEAVES})
   \<and> (generateChunkData noise2D chunkX chunkZ Map.empty c = None \<longrightarrow>
        worldData (generateChunk noise2D (removeChunk g chunkX chunkZ) chunkX chunkZ) c =
          worldData g c)"
proof -
  let ?g' = "generateChunk noise2D (removeChunk g chunkX chunkZ) chunkX chunkZ"
  have skip: "if (chunkX, chunkZ) \<in> loadedChunks g then generateChunk noise2D g chunkX chunkZ = g
    else worldData (generateChunk noise2D g chunkX chunkZ) =
           generateChunkData noise2D chunkX chunkZ (worldData g)"
    by (auto simp: loadedChunks_def generateChunk_loaded worldData_generateChunk)
  have unloaded: "(chunkX, chunkZ) \<notin> loadedChunks (removeChunk g chunkX chunkZ)"
    by (simp add: loadedChunks_removeChunk)
  have gen: "worldData ?g' = generateChunkData noise2D chunkX chunkZ (worldData g)"
    by (simp add: worldData_generateChunk removeChunk_unloads)
  have over: "worldData ?g' = worldData g ++ generateChunkData noise2D chunkX chunkZ Map.empty"
    unfolding gen by (rule generateChunkData_overriding)
  have strata: "worldData ?g' (chunkX * CHUNK_SIZE + x, y, chunkZ * CHUNK_SIZE + z)
        \<in> {Some (spec_strata_type y
                   (generateHeight noise2D (chunkX * CHUNK_SIZE + x) (chunkZ * CHUNK_SIZE + z))),
            Some LEAVES}"
    if "0 \<le> x \<and> x < CHUNK_SIZE \<and> 0 \<le> z \<and> z < CHUNK_SIZE \<and> 0 \<le> y
        \<and> y \<le> generateHeight noise2D (chunkX * CHUNK_SIZE + x) (chunkZ * CHUNK_SIZE + z)"
  proof -
    from that have "strata_or_leaves noise2D (chunkX * CHUNK_SIZE + x, y, chunkZ * CHUNK_SIZE + z)
       (generateChunkData noise2D chunkX chunkZ (worldData g)
          (chunkX * CHUNK_SIZE + x, y, chunkZ * CHUNK_SIZE + z))"
      by (intro generateChunkData_strata) simp_all
    with that show ?thesis
      unfolding gen by (auto simp: strata_or_leaves_def strataType_spec)
  qed
  have fresh: "worldData ?g' (chunkX * CHUNK_SIZE + x, y, chunkZ * CHUNK_SIZE + z)
        = generateChunkData noise2D chunkX chunkZ Map.empty
            (chunkX * CHUNK_SIZE + x, y, chunkZ * CHUNK_SIZE + z)"
    if "0 \<le> x \<and> x < CHUNK_SIZE \<and> 0 \<le> z \<and> z < CHUNK_SIZE \<and> 0 \<le> y
        \<and> y \<le> generateHeight noise2D (chunkX * CHUNK_SIZE + x) (chunkZ * CHUNK_SIZE + z)"
  proof -
    from that have "strata_or_leaves noise2D (chunkX * CHUNK_SIZE + x, y, chunkZ * CHUNK_SIZE + z)
       (generateChunkData noise2D chunkX chunkZ Map.empty
          (chunkX * CHUNK_SIZE + x, y, chunkZ * CHUNK_SIZE + z))"
      by (intro generateChunkData_strata) simp_all
    then have "generateChunkData noise2D chunkX chunkZ Map.empty
          (chunkX * CHUNK_SIZE + x, y, chunkZ * CHUNK_SIZE + z) \<noteq> None"
      by (auto simp: strata_or_leaves_def)
    then show ?thesis
      unfolding over by (auto simp: map_add_def)
  qed
  have keep: "worldData ?g' c = worldData g c"
    if "generateChunkData noise2D chunkX chunkZ Map.empty c = None"
    using that unfolding over by (simp add: map_add_def)
  from skip unloaded gen over strata fresh keep show ?thesis
    by (intro conjI impI) simp_all
qed

theorem reload_regenerates_witness:
  "(2, 3) \<in> loadedChunks exampleGame
   \<and> generateChunk flatNoise exampleGame 2 3 = exampleGame
   \<and> (0::int) \<le> 0 \<and> (0::int) < CHUNK_SIZE \<and> (0::int) \<le> 10
   \<and> 10 \<le> generateHeight flatNoise (2 * CHUNK_SIZE + 0) (3 * CHUNK_SIZE + 0)
   \<and> worldData exampleGame (2 * CHUNK_SIZE + 0, 10, 3 * CHUNK_SIZE + 0) = None
   \<and> worldData (generateChunk flatNoise (removeChunk exampleGame 2 3) 2 3)
          (2 * CHUNK_SIZE + 0, 10, 3 * CHUNK_SIZE + 0)
        = generateChunkData flatNoise 2 3 Map.empty (2 * CHUNK_SIZE + 0, 10, 3 * CHUNK_SIZE + 0)
   \<and> worldData (generateChunk flatNoise (removeChunk exampleGame 2 3) 2 3)
          (2 * CHUNK_SIZE + 0, 10, 3 * CHUNK_SIZE + 0)
        \<in> {Some (spec_strata_type 10
                   (generateHeight flatNoise (2 * CHUNK_SIZE + 0) (3 * CHUNK_SIZE + 0))),
            Some LEAVES}
   \<and> generateChunkData flatNoise 2 3 Map.empty (32, 20, 48) = None
   \<and> worldData exampleGame (32, 20, 48) = Some WOOD
   \<and> worldData (generateChunk flatNoise (removeChunk exampleGame 2 3) 2 3) (32, 20, 48) =
        worldData exampleGame (32, 20, 48)"
proof -
  have a: "(2, 3) \<in> loadedChunks exampleGame"
    by (simp add: loadedChunks_def exampleGame_def initialGame_def)
  have b: "(0::int) \<le> 0 \<and> (0::int) < CHUNK_SIZE \<and> (0::int) \<le> 0 \<and> (0::int) < CHUNK_SIZE
      \<and> (0::int) \<le> 10
      \<and> 10 \<le> generateHeight flatNoise (2 * CHUNK_SIZE + 0) (3 * CHUNK_SIZE + 0)"
    by (simp add: CHUNK_SIZE_def)
  have c: "generateChunkData flatNoise 2 3 Map.empty (32, 20, 48) = None"
    by (simp add: generateChunkData_flat)
  have d: "worldData exampleGame (2 * CHUNK_SIZE + 0, 10, 3 * CHUNK_SIZE + 0) = None"
    "worldData exampleGame (32, 20, 48) = Some WOOD"
    by (simp_all add: exampleGame_def initialGame_def CHUNK_SIZE_def)
  note inst = reload_regenerates [where g = exampleGame and noise2D = flatNoise and chunkX = 2
      and chunkZ = 3 and x = 0 and z = 0 and y = 10 and c = "(32, 20, 48)"]
  from inst a have 1: "generateChunk flatNoise exampleGame 2 3 = exampleGame"
    by simp
  from inst b have 2: "worldData (generateChunk flatNoise (removeChunk exampleGame 2 3) 2 3)
          (2 * CHUNK_SIZE + 0, 10, 3 * CHUNK_SIZE + 0)
        = generateChunkData flatNoise 2 3 Map.empty (2 * CHUNK_SIZE + 0, 10, 3 * CHUNK_SIZE + 0)
      \<and> worldData (generateChunk flatNoise (removeChunk exampleGame 2 3) 2 3)
          (2 * CHUNK_SIZE + 0, 10, 3 * CHUNK_SIZE + 0)
        \<in> {Some (spec_strata_type 10
                   (generateHeight flatNoise (2 * CHUNK_SIZE + 0) (3 * CHUNK_SIZE + 0))),
            Some LEAVES}"
    by blast
  from inst c have 3: "worldData (generateChunk flatNoise (removeChunk exampleGame 2 3) 2 3)
        (32, 20, 48) = worldData exampleGame (32, 20, 48)"
    by blast
  from a b c d 1 2 3 show ?thesis
    by blast
qed

section \<open>Chunk meshing: proofs\<close>

lemma hasExposedFace_spec: "hasExposedFace w x y z = spec_exposed w (x, y, z)"
  by (simp add: hasExposedFace_def spec_exposed_def spec_neighbours_def)

lemma meshVisit_push: "meshVisit w worldX worldZ y = fold pushBlock (visits w worldX worldZ y)"
  by (rule ext) (simp add: meshVisit_def visits_def pushBlock_def Let_def)

lemma fold_meshVisit:
  "fold (meshVisit w worldX worldZ) ys = fold pushBlock (concat (map (visits w worldX worldZ) ys))"
proof -
  have "meshVisit w worldX worldZ = (\<lambda>y. fold pushBlock (visits w worldX worldZ y))"
    by (rule ext) (rule meshVisit_push)
  then show ?thesis
    by (simp only: fold_fold_concat)
qed

lemma scanChunk_push: "scanChunk w startX startZ = fold pushBlock (scanList w startX startZ) Map.empty"
  by (simp only: scanChunk_def scanList_def fold_meshVisit fold_fold_concat)

lemma fold_pushBlock:
  "fold pushBlock l bbt t =
     (if selectType t l = [] then bbt t
      else Some ((case bbt t of None \<Rightarrow> [] | Some bs \<Rightarrow> bs) @ selectType t l))"
proof (induction l arbitrary: bbt)
  case Nil
  then show ?case by (simp add: selectType_def)
next
  case (Cons p l)
  show ?case
    by (simp add: Cons.IH) (simp add: selectType_def pushBlock_def)
qed

lemma scanChunk_apply:
  "scanChunk w startX startZ t =
     (if selectType t (scanList w startX startZ) = [] then None
      else Some (selectType t (scanList w startX startZ)))"
  by (simp add: scanChunk_push fold_pushBlock)

lemma visits_cells:
  "map snd (concat (map (visits w x z) ys)) = filter (visible w) (map (\<lambda>y. (x, y, z)) ys)"
  by (induction ys) (simp_all add: visits_def visible_def)

lemma concat_map_filter:
  assumes "\<And>a. map snd (F a) = filter P (G a)"
  shows "map snd (concat (map F as)) = filter P (concat (map G as))"
  by (induction as) (simp_all add: assms)

lemma scanList_cells: "map snd (scanList w startX startZ) = filter (visible w) (scanCells startX startZ)"
  unfolding scanList_def scanCells_def
  by (rule concat_map_filter, rule concat_map_filter, rule visits_cells)

lemma scanList_types: "(t, c) \<in> set (scanList w startX startZ) \<Longrightarrow> t = cellType w c"
  by (auto simp: scanList_def visits_def cellType_def split: if_splits)

lemma distinct_scanCells: "distinct (scanCells startX startZ)"
proof -
  have row: "distinct (concat (map (\<lambda>z. map (\<lambda>y. (a, y, startZ + z)) ys) zs))"
    if "distinct zs" "distinct ys" for a and zs ys :: "int list"
    using that by (induction zs) (auto simp: distinct_map inj_on_def)
  have "distinct (concat (map (\<lambda>x. concat (map (\<lambda>z. map (\<lambda>y. (startX + x, y, startZ + z)) ys) zs)) xs))"
    if "distinct xs" "distinct zs" "distinct ys" for xs zs ys :: "int list"
    using that by (induction xs) (auto simp: row)
  then show ?thesis
    by (simp add: scanCells_def)
qed

lemma set_nested_map:
  "set (concat (map (\<lambda>x. concat (map (\<lambda>z. map (f x z) ys) zs)) xs)) =
     {f x z y | x z y. x \<in> set xs \<and> z \<in> set zs \<and> y \<in> set ys}"
  by (simp add: set_eq_iff) blast

lemma set_scanCells:
  "set (scanCells startX startZ) =
     {(startX + x, y, startZ + z) | x y z.
        0 \<le> x \<and> x < CHUNK_SIZE \<and> 0 \<le> z \<and> z < CHUNK_SIZE \<and> 0 \<le> y \<and> y < CHUNK_HEIGHT}"
  unfolding scanCells_def set_nested_map
  by auto

lemma count_list_distinct: "distinct xs \<Longrightarrow> count_list xs x = (if x \<in> set xs then 1 else 0)"
  by (induction xs) auto

lemma count_list_filter: "count_list (filter P xs) x = (if P x then count_list xs x else 0)"
  by (induction xs) auto

lemma set_typeOrder [simp]: "t \<in> set typeOrder"
  by (cases t) (simp_all add: typeOrder_def)

lemma distinct_typeOrder [simp]: "distinct typeOrder"
  by (simp add: typeOrder_def)

lemma buildChunkMesh_meshOf:
  "buildChunkMesh w chunkX chunkZ =
     concat (map (meshOf chunkX chunkZ (scanList w (chunkX * CHUNK_SIZE) (chunkZ * CHUNK_SIZE)))
       typeOrder)"
  by (simp add: buildChunkMesh_def Let_def scanChunk_apply meshOf_def typeOrder_def)

lemma mesh_in_buildChunkMesh:
  "m \<in> set (buildChunkMesh w chunkX chunkZ) \<longleftrightarrow>
     (\<exists>t. selectType t (scanList w (chunkX * CHUNK_SIZE) (chunkZ * CHUNK_SIZE)) \<noteq> []
        \<and> m = \<lparr>userData_chunkX = chunkX, userData_chunkZ = chunkZ,
                userData_blocks = selectType t
                  (scanList w (chunkX * CHUNK_SIZE) (chunkZ * CHUNK_SIZE)),
                userData_blockType = t\<rparr>)"
  unfolding buildChunkMesh_meshOf
  by (auto simp: meshOf_def split: if_splits)

lemma types_concat_meshOf:
  "map userData_blockType (concat (map (meshOf chunkX chunkZ l) ts)) =
     filter (\<lambda>t. selectType t l \<noteq> []) ts"
  by (induction ts) (simp_all add: meshOf_def)

lemma distinct_types_buildChunkMesh:
  "distinct (map userData_blockType (buildChunkMesh w chunkX chunkZ))"
  by (simp add: buildChunkMesh_meshOf types_concat_meshOf)

lemma sum_count_typeOrder:
  "(\<Sum>t\<leftarrow>typeOrder. if t = t' then (1::nat) else 0) = 1"
  by (cases t') (simp_all add: typeOrder_def)

lemma sum_count_selectType:
  "(\<Sum>t\<leftarrow>typeOrder. count_list (selectType t l) c) = count_list (map snd l) c"
proof (induction l)
  case Nil
  then show ?case by (simp add: selectType_def)
next
  case (Cons p l)
  have "(\<Sum>t\<leftarrow>typeOrder. count_list (selectType t (p # l)) c) =
      (\<Sum>t\<leftarrow>typeOrder. (if snd p = c then (if t = fst p then 1 else 0) else 0)
         + count_list (selectType t l) c)"
    by (rule arg_cong [where f = sum_list], rule map_cong) (auto simp: selectType_def)
  also have "\<dots> = (\<Sum>t\<leftarrow>typeOrder. if snd p = c then (if t = fst p then 1 else 0) else 0)
      + (\<Sum>t\<leftarrow>typeOrder. count_list (selectType t l) c)"
    by (rule sum_list_addf)
  also have "(\<Sum>t\<leftarrow>typeOrder. if snd p = c then (if t = fst p then (1::nat) else 0) else 0) =
      (if snd p = c then 1 else 0)"
    by (simp add: sum_count_typeOrder)
  finally show ?case
    by (simp add: Cons.IH)
qed

lemma sum_count_concat_meshOf:
  "(\<Sum>m\<leftarrow>concat (map (meshOf chunkX chunkZ l) ts). count_list (userData_blocks m) c) =
     (\<Sum>t\<leftarrow>ts. count_list (selectType t l) c)"
  by (induction ts) (simp_all add: meshOf_def)

lemma sum_count_buildChunkMesh:
  "(\<Sum>m\<leftarrow>buildChunkMesh w chunkX chunkZ. count_list (userData_blocks m) c) =
     count_list (map snd (scanList w (chunkX * CHUNK_SIZE) (chunkZ * CHUNK_SIZE))) c"
  by (simp only: buildChunkMesh_meshOf sum_count_concat_meshOf sum_count_selectType)

text \<open>
  C2. For a cell of the chunk's footprint and height range whose block is not Air: some
  batch of \<open>buildChunkMesh\<close> lists the cell if and only if one of its six face
  neighbours resolves to Air; over all batches the cell is listed once when it is exposed
  and never when it is enclosed; a batch that lists it has the cell's block type; and no
  two batches have the same type.
\<close>

theorem mesher_face_culling:
  assumes "0 \<le> x" "x < CHUNK_SIZE" "0 \<le> z" "z < CHUNK_SIZE" "0 \<le> y" "y < CHUNK_HEIGHT"
    and "getBlock w (of_int (chunkX * CHUNK_SIZE + x)) (of_int y) (of_int (chunkZ * CHUNK_SIZE + z))
           \<noteq> AIR"
  shows "((\<exists>m\<in>set (buildChunkMesh w chunkX chunkZ).
            (chunkX * CHUNK_SIZE + x, y, chunkZ * CHUNK_SIZE + z) \<in> set (userData_blocks m))
          \<longleftrightarrow> spec_exposed w (chunkX * CHUNK_SIZE + x, y, chunkZ * CHUNK_SIZE + z))
    \<and> (\<Sum>m\<leftarrow>buildChunkMesh w chunkX chunkZ.
          count_list (userData_blocks m) (chunkX * CHUNK_SIZE + x, y, chunkZ * CHUNK_SIZE + z))
        = (if spec_exposed w (chunkX * CHUNK_SIZE + x, y, chunkZ * CHUNK_SIZE + z) then 1 else 0)
    \<and> (\<forall>m\<in>set (buildChunkMesh w chunkX chunkZ).
          (chunkX * CHUNK_SIZE + x, y, chunkZ * CHUNK_SIZE + z) \<in> set (userData_blocks m) \<longrightarrow>
          userData_blockType m =
            getBlock w (of_int (chunkX * CHUNK_SIZE + x)) (of_int y) (of_int (chunkZ * CHUNK_SIZE + z)))
    \<and> distinct (map userData_blockType (buildChunkMesh w chunkX chunkZ))"
proof -
  let ?sx = "chunkX * CHUNK_SIZE" and ?sz = "chunkZ * CHUNK_SIZE"
  let ?c = "(?sx + x, y, ?sz + z)"
  let ?l = "scanList w ?sx ?sz"
  let ?ms = "buildChunkMesh w chunkX chunkZ"
  have cell: "?c \<in> set (scanCells ?sx ?sz)"
    using assms(1-6) unfolding set_scanCells by blast
  have vis: "visible w ?c = spec_exposed w ?c"
    using assms(7) by (simp add: visible_def hasExposedFace_spec)
  have total: "(\<Sum>m\<leftarrow>?ms. count_list (userData_blocks m) ?c) = (if spec_exposed w ?c then 1 else 0)"
    using cell vis
    by (simp add: sum_count_buildChunkMesh scanList_cells count_list_filter
        count_list_distinct distinct_scanCells)
  have types: "userData_blockType m = cellType w ?c"
    if "m \<in> set ?ms" "?c \<in> set (userData_blocks m)" for m
  proof -
    from that have "?c \<in> set (selectType (userData_blockType m) ?l)"
      by (auto simp: mesh_in_buildChunkMesh)
    then have "(userData_blockType m, ?c) \<in> set ?l"
      by (auto simp: selectType_def)
    then show ?thesis
      by (rule scanList_types)
  qed
  have member: "(\<exists>m\<in>set ?ms. ?c \<in> set (userData_blocks m)) \<longleftrightarrow> spec_exposed w ?c"
  proof
    assume "\<exists>m\<in>set ?ms. ?c \<in> set (userData_blocks m)"
    then obtain m where "m \<in> set ?ms" "count_list (userData_blocks m) ?c \<noteq> 0"
      by (auto simp: count_list_0_iff)
    then have "(\<Sum>m\<leftarrow>?ms. count_list (userData_blocks m) ?c) \<noteq> 0"
      by (auto simp: sum_list_eq_0_iff)
    with total show "spec_exposed w ?c"
      by (simp split: if_splits)
  next
    assume "spec_exposed w ?c"
    with total have "(\<Sum>m\<leftarrow>?ms. count_list (userData_blocks m) ?c) \<noteq> 0"
      by simp
    then obtain m where "m \<in> set ?ms" "count_list (userData_blocks m) ?c \<noteq> 0"
      by (auto simp: sum_list_eq_0_iff)
    then show "\<exists>m\<in>set ?ms. ?c \<in> set (userData_blocks m)"
      by (auto simp: count_list_0_iff)
  qed
  from member total types show ?thesis
    by (simp add: distinct_types_buildChunkMesh cellType_def)
qed

theorem mesher_face_culling_witness:
  "(0::int) \<le> 1 \<and> (1::int) < CHUNK_SIZE \<and> (0::int) \<le> 2 \<and> (2::int) < CHUNK_SIZE
   \<and> (0::int) \<le> 5 \<and> (5::int) < CHUNK_HEIGHT
   \<and> getBlock [(33, 5, 50) \<mapsto> STONE] (of_int (2 * CHUNK_SIZE + 1)) (of_int 5)
         (of_int (3 * CHUNK_SIZE + 2)) \<noteq> AIR
   \<and> spec_exposed [(33, 5, 50) \<mapsto> STONE] (2 * CHUNK_SIZE + 1, 5, 3 * CHUNK_SIZE + 2)
   \<and> (\<exists>m\<in>set (buildChunkMesh [(33, 5, 50) \<mapsto> STONE] 2 3).
         (2 * CHUNK_SIZE + 1, 5, 3 * CHUNK_SIZE + 2) \<in> set (userData_blocks m))
   \<and> (\<Sum>m\<leftarrow>buildChunkMesh [(33, 5, 50) \<mapsto> STONE] 2 3.
         count_list (userData_blocks m) (2 * CHUNK_SIZE + 1, 5, 3 * CHUNK_SIZE + 2)) = 1"
proof -
  let ?w = "[(33::int, 5::int, 50::int) \<mapsto> STONE]"
  have r: "(0::int) \<le> 1" "(1::int) < CHUNK_SIZE" "(0::int) \<le> 2" "(2::int) < CHUNK_SIZE"
    "(0::int) \<le> 5" "(5::int) < CHUNK_HEIGHT"
    by (simp_all add: CHUNK_SIZE_def CHUNK_HEIGHT_def)
  have b: "getBlock ?w (of_int (2 * CHUNK_SIZE + 1)) (of_int 5) (of_int (3 * CHUNK_SIZE + 2)) \<noteq> AIR"
    by (simp add: getBlock_def getBlockKey_def CHUNK_SIZE_def)
  have e: "spec_exposed ?w (2 * CHUNK_SIZE + 1, 5, 3 * CHUNK_SIZE + 2)"
    by (simp add: spec_exposed_def spec_neighbours_def getBlock_def getBlockKey_def CHUNK_SIZE_def)
  from mesher_face_culling [OF r b] e r b show ?thesis
    by simp
qed

section \<open>Chunk reconciliation: proofs\<close>

lemma list_all_update:
  "list_all P al \<Longrightarrow> P (k, v) \<Longrightarrow> list_all P (AList.update k v al)"
  by (induction al) auto

lemma list_all_delete: "list_all P al \<Longrightarrow> list_all P (AList.delete k al)"
  by (induction al) auto

lemma chunkEntryOk_map_of:
  "list_all chunkEntryOk al \<Longrightarrow> map_of al k = Some c \<Longrightarrow> chunkEntryOk (k, c)"
  by (auto simp: list_all_iff dest: map_of_SomeD)

lemma buildChunkMesh_key:
  "m \<in> set (buildChunkMesh w chunkX chunkZ) \<Longrightarrow> meshKey m = (chunkX, chunkZ)"
  by (auto simp: mesh_in_buildChunkMesh meshKey_def)

lemma distinct_buildChunkMesh: "distinct (buildChunkMesh w chunkX chunkZ)"
  using distinct_types_buildChunkMesh [of w chunkX chunkZ]
  by (simp add: distinct_map)

lemma generateChunk_unloaded:
  "map_of (chunks g) (chunkX, chunkZ) = None \<Longrightarrow>
   generateChunk noise2D g chunkX chunkZ =
     g\<lparr>worldData := generateChunkData noise2D chunkX chunkZ (worldData g),
       scene := scene g @ buildChunkMesh (generateChunkData noise2D chunkX chunkZ (worldData g))
                  chunkX chunkZ,
       chunks := AList.update (chunkX, chunkZ)
         \<lparr>chunk_meshes = buildChunkMesh (generateChunkData noise2D chunkX chunkZ (worldData g))
                            chunkX chunkZ,
          chunk_chunkX = chunkX, chunk_chunkZ = chunkZ\<rparr>
         (chunks g)\<rparr>"
  by (simp add: generateChunk_def Let_def)

lemma gameInv_generateChunk:
  assumes "gameInv g"
  shows "gameInv (generateChunk noise2D g chunkX chunkZ)"
proof (cases "map_of (chunks g) (chunkX, chunkZ)")
  case (Some c)
  with assms show ?thesis
    by (simp add: generateChunk_loaded)
next
  case None
  let ?ms = "buildChunkMesh (generateChunkData noise2D chunkX chunkZ (worldData g)) chunkX chunkZ"
  let ?c = "\<lparr>chunk_meshes = ?ms, chunk_chunkX = chunkX, chunk_chunkZ = chunkZ\<rparr>"
  let ?g' = "generateChunk noise2D g chunkX chunkZ"
  have g': "chunks ?g' = AList.update (chunkX, chunkZ) ?c (chunks g)" "scene ?g' = scene g @ ?ms"
    using None by (simp_all add: generateChunk_unloaded)
  have new: "chunkEntryOk ((chunkX, chunkZ), ?c)"
    by (simp add: chunkEntryOk_def list_all_iff buildChunkMesh_key)
  have old_key: "meshKey m \<noteq> (chunkX, chunkZ)" if "m \<in> set (scene g)" for m
    using assms that None by (auto simp: gameInv_def list_all_iff sceneMeshOk_def split: option.splits)
  have 1: "list_all chunkEntryOk (chunks ?g')"
    using assms new by (simp add: g' gameInv_def list_all_update)
  have 2: "distinct (scene ?g')"
    using assms old_key by (auto simp: g' gameInv_def distinct_buildChunkMesh dest: buildChunkMesh_key)
  have 3: "sceneMeshOk ?g' m" if "m \<in> set (scene ?g')" for m
  proof (cases "m \<in> set ?ms")
    case True
    then show ?thesis
      by (simp add: sceneMeshOk_def g' AList.update_conv' buildChunkMesh_key)
  next
    case False
    with that have m: "m \<in> set (scene g)"
      by (simp add: g')
    with assms have "sceneMeshOk g m"
      by (simp add: gameInv_def list_all_iff)
    with old_key [OF m] show ?thesis
      by (simp add: sceneMeshOk_def g' AList.update_conv')
  qed
  from 1 2 3 show ?thesis
    by (simp add: gameInv_def list_all_iff)
qed

lemma gameInv_removeChunk:
  assumes "gameInv g"
  shows "gameInv (removeChunk g chunkX chunkZ)"
proof (cases "map_of (chunks g) (chunkX, chunkZ)")
  case None
  with assms show ?thesis
    by (simp add: removeChunk_def)
next
  case (Some c)
  let ?g' = "removeChunk g chunkX chunkZ"
  have g': "chunks ?g' = AList.delete (chunkX, chunkZ) (chunks g)"
    "scene ?g' = sceneRemove (chunk_meshes c) (scene g)"
    using Some by (simp_all add: removeChunk_loaded)
  have d: "distinct (scene g)"
    using assms by (simp add: gameInv_def)
  have 1: "list_all chunkEntryOk (chunks ?g')"
    using assms by (simp add: g' gameInv_def list_all_delete)
  have 2: "distinct (scene ?g')"
    using d by (simp add: g' distinct_sceneRemove)
  have 3: "sceneMeshOk ?g' m" if "m \<in> set (scene ?g')" for m
  proof -
    from that d have m: "m \<in> set (scene g)" "m \<notin> set (chunk_meshes c)"
      by (simp_all add: g' set_sceneRemove)
    with assms have "sceneMeshOk g m"
      by (simp add: gameInv_def list_all_iff)
    with m(2) Some show ?thesis
      by (auto simp: sceneMeshOk_def g' AList.delete_conv' split: option.splits)
  qed
  from 1 2 3 show ?thesis
    by (simp add: gameInv_def list_all_iff)
qed

lemma loadedChunks_generateChunk:
  "loadedChunks (generateChunk noise2D g chunkX chunkZ) = insert (chunkX, chunkZ) (loadedChunks g)"
proof (cases "map_of (chunks g) (chunkX, chunkZ)")
  case None
  then show ?thesis
    by (simp add: generateChunk_unloaded loadedChunks_def AList.update_conv')
next
  case (Some c)
  then have "(chunkX, chunkZ) \<in> loadedChunks g"
    by (auto simp: loadedChunks_def)
  with Some show ?thesis
    by (auto simp: generateChunk_loaded)
qed


lemma fold_collects:
  assumes "\<And>a s. L (step a s) = K a \<union> L s"
  shows "L (fold step as s) = (\<Union>a\<in>set as. K a) \<union> L s"
  by (induction as arbitrary: s) (auto simp: assms)

lemma loadedChunks_generate_row:
  "loadedChunks (fold (\<lambda>z g. generateChunk noise2D g cx (pz + z)) zs g) =
     (\<Union>z\<in>set zs. {(cx, pz + z)}) \<union> loadedChunks g"
  by (rule fold_collects) (simp add: loadedChunks_generateChunk)

lemma loadedChunks_generate_square:
  "loadedChunks (fold (\<lambda>x. fold (\<lambda>z g. generateChunk noise2D g (px + x) (pz + z)) zs) xs g) =
     (\<Union>x\<in>set xs. \<Union>z\<in>set zs. {(px + x, pz + z)}) \<union> loadedChunks g"
  by (rule fold_collects) (rule loadedChunks_generate_row)

lemma gameInv_generate_square:
  assumes "gameInv g"
  shows "gameInv (fold (\<lambda>x. fold (\<lambda>z g. generateChunk noise2D g (px + x) (pz + z)) zs) xs g)"
proof (rule fold_keeps [where P = gameInv])
  show "gameInv g" by (rule assms)
  show "gameInv (fold (\<lambda>z g. generateChunk noise2D g (px + a) (pz + z)) zs s)"
    if "gameInv s" for a s
    by (rule fold_keeps [where P = gameInv]) (simp_all add: that gameInv_generateChunk)
qed

lemma offsets_square:
  "{(px + x, pz + z) | x z. - r \<le> x \<and> x \<le> r \<and> - r \<le> z \<and> z \<le> (r::int)} = spec_needed (px, pz) r"
proof (intro set_eqI iffI)
  fix k
  assume "k \<in> {(px + x, pz + z) | x z. - r \<le> x \<and> x \<le> r \<and> - r \<le> z \<and> z \<le> r}"
  then obtain x z where "k = (px + x, pz + z)" "- r \<le> x" "x \<le> r" "- r \<le> z" "z \<le> r"
    by blast
  then show "k \<in> spec_needed (px, pz) r"
    by (simp add: spec_needed_def abs_le_iff)
next
  fix k
  assume k: "k \<in> spec_needed (px, pz) r"
  obtain a b where ab: "k = (a, b)"
    by (cases k) auto
  from k have "\<bar>a - px\<bar> \<le> r" "\<bar>b - pz\<bar> \<le> r"
    by (simp_all add: spec_needed_def ab)
  then have "- r \<le> a - px" "a - px \<le> r" "- r \<le> b - pz" "b - pz \<le> r"
    by linarith+
  moreover have "k = (px + (a - px), pz + (b - pz))"
    by (simp add: ab)
  ultimately show "k \<in> {(px + x, pz + z) | x z. - r \<le> x \<and> x \<le> r \<and> - r \<le> z \<and> z \<le> r}"
    by blast
qed

lemma needed_square:
  "set (concat (map (\<lambda>x. map (\<lambda>z. (px + x, pz + z)) [- r..r]) [- r..r])) = spec_needed (px, pz) r"
  unfolding set_concat_map2 offsets_square [symmetric]
  by simp

lemma generated_square:
  "(\<Union>x\<in>set [- r..r]. \<Union>z\<in>set [- r..r]. {(px + x, pz + z)}) = spec_needed (px, pz) r"
proof -
  have "(\<Union>x\<in>set xs. \<Union>z\<in>set zs. {f x z}) = set (concat (map (\<lambda>x. map (f x) zs) xs))"
    for f :: "int \<Rightarrow> int \<Rightarrow> int \<times> int" and xs zs
    by (simp add: UNION_singleton_eq_range)
  then show ?thesis
    by (simp only: needed_square)
qed

lemma gameInv_unloadVisit: "gameInv g \<Longrightarrow> gameInv (unloadVisit needed key g)"
  by (simp add: unloadVisit_def gameInv_removeChunk split: option.splits)

lemma loadedChunks_unloadVisit:
  assumes "gameInv g"
  shows "loadedChunks (unloadVisit needed key g) =
     (if key \<in> set needed then loadedChunks g else loadedChunks g - {key})"
proof (cases "map_of (chunks g) key")
  case None
  then have "key \<notin> loadedChunks g"
    by (auto simp: loadedChunks_def)
  with None show ?thesis
    by (simp add: unloadVisit_def)
next
  case (Some c)
  with assms have "chunkEntryOk (key, c)"
    by (auto simp: gameInv_def intro: chunkEntryOk_map_of)
  then have "key = (chunk_chunkX c, chunk_chunkZ c)"
    by (simp add: chunkEntryOk_def)
  then have "loadedChunks (removeChunk g (chunk_chunkX c) (chunk_chunkZ c)) = loadedChunks g - {key}"
    by (simp add: loadedChunks_removeChunk)
  with Some show ?thesis
    by (simp add: unloadVisit_def)
qed

lemma unload_loop:
  assumes "gameInv g"
  shows "gameInv (fold (unloadVisit needed) keys g)
    \<and> loadedChunks (fold (unloadVisit needed) keys g) =
        loadedChunks g - {key \<in> set keys. key \<notin> set needed}"
  using assms
proof (induction keys arbitrary: g)
  case Nil
  then show ?case by simp
next
  case (Cons key keys)
  have inv: "gameInv (unloadVisit needed key g)"
    using Cons.prems by (rule gameInv_unloadVisit)
  from Cons.IH [OF inv] loadedChunks_unloadVisit [OF Cons.prems, of needed key]
  show ?case
    by auto
qed

lemma keys_loadedChunks: "set (map fst (chunks g)) = loadedChunks g"
  by (simp add: loadedChunks_def dom_map_of_conv_image_fst)

lemma updateChunks_unfold:
  "playerChunk g = (px, pz) \<Longrightarrow>
   updateChunks noise2D g =
     fold (unloadVisit (concat (map (\<lambda>x. map (\<lambda>z. (px + x, pz + z))
             [- RENDER_DISTANCE..RENDER_DISTANCE]) [- RENDER_DISTANCE..RENDER_DISTANCE])))
       (map fst (chunks (fold (\<lambda>x. fold (\<lambda>z g. generateChunk noise2D g (px + x) (pz + z))
             [- RENDER_DISTANCE..RENDER_DISTANCE]) [- RENDER_DISTANCE..RENDER_DISTANCE] g)))
       (fold (\<lambda>x. fold (\<lambda>z g. generateChunk noise2D g (px + x) (pz + z))
             [- RENDER_DISTANCE..RENDER_DISTANCE]) [- RENDER_DISTANCE..RENDER_DISTANCE] g)"
  by (simp add: updateChunks_def Let_def)

lemma updateChunks_result:
  assumes "gameInv g"
  shows "gameInv (updateChunks noise2D g)
    \<and> loadedChunks (updateChunks noise2D g) = spec_needed (playerChunk g) RENDER_DISTANCE"
proof -
  obtain px pz where p: "playerChunk g = (px, pz)"
    by (cases "playerChunk g") auto
  let ?offs = "[- RENDER_DISTANCE..RENDER_DISTANCE]"
  let ?needed = "concat (map (\<lambda>x. map (\<lambda>z. (px + x, pz + z)) ?offs) ?offs)"
  let ?g1 = "fold (\<lambda>x. fold (\<lambda>z g. generateChunk noise2D g (px + x) (pz + z)) ?offs) ?offs g"
  have inv1: "gameInv ?g1"
    using assms by (rule gameInv_generate_square)
  have loaded1: "loadedChunks ?g1 = spec_needed (px, pz) RENDER_DISTANCE \<union> loadedChunks g"
    by (simp only: loadedChunks_generate_square generated_square)
  have u: "updateChunks noise2D g = fold (unloadVisit ?needed) (map fst (chunks ?g1)) ?g1"
    using p by (rule updateChunks_unfold)
  from unload_loop [OF inv1, of ?needed "map fst (chunks ?g1)"]
  have "gameInv (updateChunks noise2D g)"
    and "loadedChunks (updateChunks noise2D g) =
      loadedChunks ?g1 - {key \<in> loadedChunks ?g1. key \<notin> spec_needed (px, pz) RENDER_DISTANCE}"
    unfolding u keys_loadedChunks needed_square by simp_all
  then show ?thesis
    unfolding loaded1 p by auto
qed

lemma gameInv_initialGame: "gameInv initialGame"
  by (simp add: gameInv_def initialGame_def)

lemma gameInv_rebuildChunk:
  assumes "gameInv g"
  shows "gameInv (rebuildChunk g chunkX chunkZ)"
proof -
  let ?key = "(chunkX, chunkZ)"
  let ?ms = "buildChunkMesh (worldData g) chunkX chunkZ"
  let ?c = "\<lparr>chunk_meshes = ?ms, chunk_chunkX = chunkX, chunk_chunkZ = chunkZ\<rparr>"
  let ?sc = "case map_of (chunks g) ?key of None \<Rightarrow> scene g
             | Some chunk \<Rightarrow> sceneRemove (chunk_meshes chunk) (scene g)"
  let ?g' = "rebuildChunk g chunkX chunkZ"
  have g': "chunks ?g' = AList.update ?key ?c (chunks g)" "scene ?g' = ?sc @ ?ms"
    by (simp_all add: rebuildChunk_def Let_def)
  have d: "distinct (scene g)"
    using assms by (simp add: gameInv_def)
  have ok: "sceneMeshOk g m" if "m \<in> set (scene g)" for m
    using assms that by (simp add: gameInv_def list_all_iff)
  have kept: "m \<in> set (scene g) \<and> meshKey m \<noteq> ?key" if "m \<in> set ?sc" for m
  proof (cases "map_of (chunks g) ?key")
    case None
    with that have "m \<in> set (scene g)" by simp
    with ok [of m] None show ?thesis
      by (auto simp: sceneMeshOk_def split: option.splits)
  next
    case (Some c)
    with that d have "m \<in> set (scene g)" "m \<notin> set (chunk_meshes c)"
      by (simp_all add: set_sceneRemove)
    with ok [of m] Some show ?thesis
      by (auto simp: sceneMeshOk_def split: option.splits)
  qed
  have dsc: "distinct ?sc"
    using d by (simp add: distinct_sceneRemove split: option.splits)
  have new: "chunkEntryOk (?key, ?c)"
    by (simp add: chunkEntryOk_def list_all_iff buildChunkMesh_key)
  have 1: "list_all chunkEntryOk (chunks ?g')"
    using assms new by (simp add: g' gameInv_def list_all_update)
  have 2: "distinct (scene ?g')"
    unfolding g' using dsc kept by (auto simp: distinct_buildChunkMesh dest: buildChunkMesh_key)
  have 3: "sceneMeshOk ?g' m" if "m \<in> set (scene ?g')" for m
  proof (cases "m \<in> set ?ms")
    case True
    then show ?thesis
      by (simp add: sceneMeshOk_def g' AList.update_conv' buildChunkMesh_key)
  next
    case False
    with that have "m \<in> set ?sc"
      by (simp add: g')
    then have "m \<in> set (scene g)" "meshKey m \<noteq> ?key"
      using kept by simp_all
    with ok [of m] show ?thesis
      by (simp add: sceneMeshOk_def g' AList.update_conv')
  qed
  from 1 2 3 show ?thesis
    by (simp add: gameInv_def list_all_iff)
qed

text \<open>
  C3. The radius of the code is the constant \<open>RENDER_DISTANCE\<close>, and the player
  chunk \<open>(cx, cz)\<close> is the chunk of the camera position. From a state that satisfies
  the loaded-chunk invariant, one run of \<open>updateChunks\<close> leaves exactly the keys
  \<open>(x, z)\<close> with \<open>|x - cx| \<le> RENDER_DISTANCE\<close> and
  \<open>|z - cz| \<le> RENDER_DISTANCE\<close> loaded; a chunk that was loaded under a key outside
  this square is no longer loaded and none of its meshes is in the scene; and the
  invariant holds again.
\<close>

theorem reconciliation:
  assumes "gameInv g"
  shows "loadedChunks (updateChunks noise2D g) = spec_needed (playerChunk g) RENDER_DISTANCE
    \<and> (map_of (chunks g) key = Some chunk
         \<and> key \<notin> spec_needed (playerChunk g) RENDER_DISTANCE \<longrightarrow>
       key \<notin> loadedChunks (updateChunks noise2D g)
       \<and> (\<forall>m\<in>set (chunk_meshes chunk). m \<notin> set (scene (updateChunks noise2D g))))
    \<and> gameInv (updateChunks noise2D g)"
proof -
  let ?g' = "updateChunks noise2D g"
  have res: "gameInv ?g'" "loadedChunks ?g' = spec_needed (playerChunk g) RENDER_DISTANCE"
    using updateChunks_result [OF assms] by simp_all
  have released: "m \<notin> set (scene ?g')"
    if c: "map_of (chunks g) key = Some chunk"
      and out: "key \<notin> spec_needed (playerChunk g) RENDER_DISTANCE"
      and m: "m \<in> set (chunk_meshes chunk)" for m
  proof
    assume "m \<in> set (scene ?g')"
    with res(1) have "sceneMeshOk ?g' m"
      by (simp add: gameInv_def list_all_iff)
    then have "meshKey m \<in> loadedChunks ?g'"
      by (auto simp: sceneMeshOk_def loadedChunks_def split: option.splits)
    moreover from assms c have "chunkEntryOk (key, chunk)"
      by (auto simp: gameInv_def intro: chunkEntryOk_map_of)
    with m have "meshKey m = key"
      by (simp add: chunkEntryOk_def list_all_iff)
    ultimately show False
      using out res(2) by simp
  qed
  from res released show ?thesis
    by auto
qed


theorem reconciliation_witness:
  "gameInv farGame
   \<and> map_of (chunks farGame) (2, 3) = Some exampleChunk
   \<and> (2, 3) \<notin> spec_needed (playerChunk farGame) RENDER_DISTANCE
   \<and> loadedChunks (updateChunks flatNoise farGame) = spec_needed (playerChunk farGame) RENDER_DISTANCE
   \<and> (2, 3) \<notin> loadedChunks (updateChunks flatNoise farGame)
   \<and> exampleMesh \<notin> set (scene (updateChunks flatNoise farGame))
   \<and> gameInv (updateChunks flatNoise farGame)"
proof -
  have a: "gameInv farGame"
    by (simp add: gameInv_def farGame_def exampleGame_def initialGame_def chunkEntryOk_def
        sceneMeshOk_def meshKey_def exampleChunk_def exampleMesh_def)
  have b: "map_of (chunks farGame) (2, 3) = Some exampleChunk"
    by (simp add: farGame_def exampleGame_def initialGame_def)
  have c: "(2, 3) \<notin> spec_needed (playerChunk farGame) RENDER_DISTANCE"
    by (simp add: spec_needed_def playerChunk_def farGame_def CHUNK_SIZE_def RENDER_DISTANCE_def)
  have m: "exampleMesh \<in> set (chunk_meshes exampleChunk)"
    by (simp add: exampleChunk_def)
  from reconciliation [OF a, of flatNoise "(2, 3)" exampleChunk] a b c m show ?thesis
    by blast
qed

section \<open>Block placement: proofs\<close>

lemma worldData_rebuildChunk [simp]: "worldData (rebuildChunk g chunkX chunkZ) = worldData g"
  by (simp add: rebuildChunk_def Let_def)

lemma inventory_rebuildChunk [simp]: "inventory (rebuildChunk g chunkX chunkZ) = inventory g"
  by (simp add: rebuildChunk_def Let_def)

lemma standingGame_count: "getSelectedBlockCount (standingGame px) = Some (Num 1)"
  by (simp add: getSelectedBlockCount_def getSelectedBlockType_def standingGame_def
      initialGame_def slotToBlockType_def)

text \<open>
  What \<open>placeBlock\<close> does with a selected block and a raycast hit: it tests the box of
  half-width 0.5 centred on the corner \<open>pos\<close> of the target cell against the player's
  box, returns without any change when they intersect, and otherwise writes the block and
  takes one from the inventory.
\<close>

lemma placeBlock_rejects:
  assumes "selectedBlock g = Some sel" and "selected_position sel = (sx, sy, sz)"
    and "cameraPosition g = (px, py, pz)"
    and "boxesIntersect (sx + nx - 0.5, sy + ny - 0.5, sz + nz - 0.5)
           (sx + nx + 0.5, sy + ny + 0.5, sz + nz + 0.5)
           (px - playerWidth, py - playerHeight, pz - playerWidth)
           (px + playerWidth, py + 0.2, pz + playerWidth)"
  shows "placeBlock g ((nx, ny, nz) # hits) = g"
  using assms by (simp add: placeBlock_def Let_def)

lemma placeBlock_places:
  assumes "selectedBlock g = Some sel" and "selected_position sel = (sx, sy, sz)"
    and "cameraPosition g = (px, py, pz)"
    and "getSelectedBlockType g = Some t" and "inventory g t = Some (Num k)" and "1 \<le> k"
    and "\<not> boxesIntersect (sx + nx - 0.5, sy + ny - 0.5, sz + nz - 0.5)
           (sx + nx + 0.5, sy + ny + 0.5, sz + nz + 0.5)
           (px - playerWidth, py - playerHeight, pz - playerWidth)
           (px + playerWidth, py + 0.2, pz + playerWidth)"
  shows "worldData (placeBlock g ((nx, ny, nz) # hits)) =
           setBlock (worldData g) (sx + nx) (sy + ny) (sz + nz) t
    \<and> inventory (placeBlock g ((nx, ny, nz) # hits)) = (inventory g)(t \<mapsto> Num (k - 1))"
  using assms
  by (simp add: placeBlock_def Let_def getSelectedBlockCount_def removeFromInventory_def)

text \<open>
  C5. The guard of \<open>placeBlock\<close> does not test the target cell, which spans
  \<open>[pos, pos + 1]\<close>, but the box \<open>[pos - 0.5, pos + 0.5]\<close>. With the camera at
  \<open>x = 1\<close> the player's volume reaches into the target cell \<open>(0, 11, 0)\<close> and the
  block is placed all the same, at the cost of one Dirt; with the camera at
  \<open>x = -0.4\<close> the player's volume is clear of the target cell and the placement is
  rejected although the inventory holds a Dirt block.
\<close>

theorem placement_guard_misplaced:
  "spec_cell_overlaps_player (0, 11, 0) (cameraPosition (standingGame 1))
   \<and> worldData (standingGame 1) (0, 11, 0) = None
   \<and> worldData (placeBlock (standingGame 1) [(0, 1, 0)]) (0, 11, 0) = Some DIRT
   \<and> inventory (standingGame 1) DIRT = Some (Num 1)
   \<and> inventory (placeBlock (standingGame 1) [(0, 1, 0)]) DIRT = Some (Num 0)
   \<and> \<not> spec_cell_overlaps_player (0, 11, 0) (cameraPosition (standingGame (- 0.4)))
   \<and> getSelectedBlockCount (standingGame (- 0.4)) = Some (Num 1)
   \<and> placeBlock (standingGame (- 0.4)) [(0, 1, 0)] = standingGame (- 0.4)"
proof -
  have a: "spec_cell_overlaps_player (0, 11, 0) (cameraPosition (standingGame 1))"
    by (simp add: spec_cell_overlaps_player_def standingGame_def playerWidth_def playerHeight_def)
  have b: "worldData (standingGame 1) (0, 11, 0) = None"
    "inventory (standingGame 1) DIRT = Some (Num 1)"
    by (simp_all add: standingGame_def)
  have c: "worldData (placeBlock (standingGame 1) [(0, 1, 0)]) (0, 11, 0) = Some DIRT"
    "inventory (placeBlock (standingGame 1) [(0, 1, 0)]) DIRT = Some (Num 0)"
    by (simp_all add: placeBlock_def standingGame_def initialGame_def getSelectedBlockCount_def
         getSelectedBlockType_def slotToBlockType_def boxesIntersect_def playerWidth_def
         playerHeight_def removeFromInventory_def initialInventory_def setBlock_def
         getBlockKey_def)
  have d: "\<not> spec_cell_overlaps_player (0, 11, 0) (cameraPosition (standingGame (- 0.4)))"
    by (simp add: spec_cell_overlaps_player_def standingGame_def playerWidth_def playerHeight_def)
  have e: "placeBlock (standingGame (- 0.4)) [(0, 1, 0)] = standingGame (- 0.4)"
    by (simp add: placeBlock_def standingGame_def initialGame_def getSelectedBlockCount_def
         getSelectedBlockType_def slotToBlockType_def boxesIntersect_def playerWidth_def
         playerHeight_def initialInventory_def)
  from a b c d e standingGame_count [of "- 0.4"] show ?thesis
    by simp
qed


section \<open>Player physics: proofs\<close>

lemma updatePlayer_collided:
  assumes "isLocked g" and "fallVelocity g delta < 0"
    and "checkCollision (worldData g) (resolvedX g delta) (candidateY g delta) (resolvedZ g delta)"
  shows "updatePlayer g delta =
     (if groundY g delta < - 50
      then g\<lparr>cameraPosition := (0, 20, 0), velocity := (0, 0, 0), canJump := True\<rparr>
      else g\<lparr>cameraPosition := (resolvedX g delta, groundY g delta, resolvedZ g delta),
             velocity := (fst (velocity g), 0, snd (snd (velocity g))),
             canJump := True\<rparr>)"
  using assms
  by (cases "cameraPosition g"; cases "velocity g")
     (simp add: updatePlayer_def Let_def groundY_def)

text \<open>
  C7, as the code has it. In a step with the controls locked, a negative vertical
  velocity after gravity and a collision at the candidate height, \<open>canJump\<close> becomes
  true and the vertical velocity 0. The camera height becomes
  \<open>floor (candidateY - playerHeight) + 1 + playerHeight\<close>, unless this is below -50,
  where the player is put back at \<open>(0, 20, 0)\<close>. When one of the four feet corners is
  inside a block, this height is the top of that block plus \<open>playerHeight\<close>.
\<close>

theorem landing_resolution:
  assumes "isLocked g" and "fallVelocity g delta < 0"
    and "checkCollision (worldData g) (resolvedX g delta) (candidateY g delta) (resolvedZ g delta)"
  shows "canJump (updatePlayer g delta)
    \<and> fst (snd (velocity (updatePlayer g delta))) = 0
    \<and> cameraPosition (updatePlayer g delta) =
        (if groundY g delta < - 50 then (0, 20, 0)
         else (resolvedX g delta, groundY g delta, resolvedZ g delta))
    \<and> (\<forall>(cx, cy, cz)\<in>set (feetCorners (resolvedX g delta) (candidateY g delta) (resolvedZ g delta)).
          getBlock (worldData g) (of_int \<lfloor>cx\<rfloor>) (of_int \<lfloor>cy\<rfloor>) (of_int \<lfloor>cz\<rfloor>) \<noteq> AIR \<longrightarrow>
          groundY g delta = of_int (\<lfloor>cy\<rfloor> + 1) + playerHeight)"
proof -
  have "groundY g delta = of_int (\<lfloor>cy\<rfloor> + 1) + playerHeight"
    if "(cx, cy, cz) \<in> set (feetCorners (resolvedX g delta) (candidateY g delta) (resolvedZ g delta))"
    for cx cy cz
    using that by (auto simp: feetCorners_def collisionCorners_def groundY_def)
  then show ?thesis
    by (auto simp: updatePlayer_collided [OF assms])
qed

lemma landing_moveVector: "moveVector landingGame = (0, 0, 0)"
  by (simp add: moveVector_def landingGame_def initialGame_def Let_def)

lemma landing_values:
  "fallVelocity landingGame (1 / 16) = - 23 / 8"
  "candidateY landingGame (1 / 16) = 8141 / 640"
  "candidateX landingGame (1 / 16) = 1 / 2"
  "candidateZ landingGame (1 / 16) = 1 / 2"
  by (simp_all add: fallVelocity_def candidateY_def candidateX_def candidateZ_def
      landing_moveVector gravity_def)
     (simp_all add: landingGame_def initialGame_def)

lemma landing_resolved:
  "resolvedX landingGame (1 / 16) = 1 / 2"
  "resolvedZ landingGame (1 / 16) = 1 / 2"
proof -
  have p: "cameraPosition landingGame = (1 / 2, 129 / 10, 1 / 2)"
    by (simp add: landingGame_def)
  show x: "resolvedX landingGame (1 / 16) = 1 / 2"
    by (simp add: resolvedX_def landing_values p)
  show "resolvedZ landingGame (1 / 16) = 1 / 2"
    by (simp add: resolvedZ_def landing_values p x)
qed

lemma landing_collides:
  "checkCollision (worldData landingGame) (1 / 2) (8141 / 640) (1 / 2)"
  by (simp add: checkCollision_def collisionCorners_def landingGame_def initialGame_def
      playerWidth_def playerHeight_def getBlock_def getBlockKey_def)

theorem landing_resolution_witness:
  "isLocked landingGame
   \<and> fallVelocity landingGame (1 / 16) < 0
   \<and> checkCollision (worldData landingGame) (resolvedX landingGame (1 / 16))
        (candidateY landingGame (1 / 16)) (resolvedZ landingGame (1 / 16))
   \<and> canJump (updatePlayer landingGame (1 / 16))
   \<and> fst (snd (velocity (updatePlayer landingGame (1 / 16)))) = 0
   \<and> cameraPosition (updatePlayer landingGame (1 / 16)) = (1 / 2, 64 / 5, 1 / 2)
   \<and> getBlock (worldData landingGame) (of_int \<lfloor>1 / 2 - playerWidth\<rfloor>)
        (of_int \<lfloor>8141 / 640 - playerHeight\<rfloor>) (of_int \<lfloor>1 / 2 - playerWidth\<rfloor>) \<noteq> AIR
   \<and> groundY landingGame (1 / 16) = of_int (\<lfloor>8141 / 640 - playerHeight\<rfloor> + 1) + playerHeight"
proof -
  have locked: "isLocked landingGame"
    by (simp add: landingGame_def)
  have falling: "fallVelocity landingGame (1 / 16) < 0"
    by (simp add: landing_values)
  have coll: "checkCollision (worldData landingGame) (resolvedX landingGame (1 / 16))
        (candidateY landingGame (1 / 16)) (resolvedZ landingGame (1 / 16))"
    by (simp add: landing_values landing_resolved landing_collides)
  have g: "groundY landingGame (1 / 16) = 64 / 5"
    by (simp add: groundY_def landing_values playerHeight_def)
  have corner: "(1 / 2 - playerWidth, 8141 / 640 - playerHeight, 1 / 2 - playerWidth)
      \<in> set (feetCorners (resolvedX landingGame (1 / 16)) (candidateY landingGame (1 / 16))
            (resolvedZ landingGame (1 / 16)))"
    by (simp add: feetCorners_def collisionCorners_def landing_values landing_resolved)
  have block: "getBlock (worldData landingGame) (of_int \<lfloor>1 / 2 - playerWidth\<rfloor>)
        (of_int \<lfloor>8141 / 640 - playerHeight\<rfloor>) (of_int \<lfloor>1 / 2 - playerWidth\<rfloor>) \<noteq> AIR"
    by (simp add: landingGame_def initialGame_def playerWidth_def playerHeight_def getBlock_def
        getBlockKey_def)
  note r = landing_resolution [OF locked falling coll]
  from r have 1: "canJump (updatePlayer landingGame (1 / 16))"
    and 2: "fst (snd (velocity (updatePlayer landingGame (1 / 16)))) = 0"
    by simp_all
  from r g have 3: "cameraPosition (updatePlayer landingGame (1 / 16)) = (1 / 2, 64 / 5, 1 / 2)"
    by (simp add: landing_resolved)
  from r have "\<forall>(cx, cy, cz)\<in>set (feetCorners (resolvedX landingGame (1 / 16))
          (candidateY landingGame (1 / 16)) (resolvedZ landingGame (1 / 16))).
        getBlock (worldData landingGame) (of_int \<lfloor>cx\<rfloor>) (of_int \<lfloor>cy\<rfloor>) (of_int \<lfloor>cz\<rfloor>) \<noteq> AIR \<longrightarrow>
        groundY landingGame (1 / 16) = of_int (\<lfloor>cy\<rfloor> + 1) + playerHeight"
    by blast
  from bspec [OF this corner] block
  have 4: "groundY landingGame (1 / 16) = of_int (\<lfloor>8141 / 640 - playerHeight\<rfloor> + 1) + playerHeight"
    by simp
  from locked falling coll 1 2 3 block 4 show ?thesis
    by blast
qed


text \<open>The step from \<open>headBlockedGame\<close>, value by value.\<close>

lemma headBlocked_moveVector: "moveVector headBlockedGame = (0, 0, 0)"
  by (simp add: moveVector_def headBlockedGame_def initialGame_def Let_def)

lemma headBlocked_values:
  "fallVelocity headBlockedGame (1 / 16) = - 23 / 8"
  "candidateY headBlockedGame (1 / 16) = 2601 / 128"
  "candidateX headBlockedGame (1 / 16) = 1 / 2"
  "candidateZ headBlockedGame (1 / 16) = 1 / 2"
  by (simp_all add: fallVelocity_def candidateY_def candidateX_def candidateZ_def
      headBlocked_moveVector gravity_def)
     (simp_all add: headBlockedGame_def initialGame_def)

lemma headBlocked_resolved:
  "resolvedX headBlockedGame (1 / 16) = 1 / 2"
  "resolvedZ headBlockedGame (1 / 16) = 1 / 2"
proof -
  have p: "cameraPosition headBlockedGame = (1 / 2, 41 / 2, 1 / 2)"
    by (simp add: headBlockedGame_def)
  show x: "resolvedX headBlockedGame (1 / 16) = 1 / 2"
    by (simp add: resolvedX_def headBlocked_values p)
  show "resolvedZ headBlockedGame (1 / 16) = 1 / 2"
    by (simp add: resolvedZ_def headBlocked_values p x)
qed

lemma headBlocked_collides:
  "checkCollision (worldData headBlockedGame) (1 / 2) (2601 / 128) (1 / 2)"
  by (simp add: checkCollision_def collisionCorners_def headBlockedGame_def initialGame_def
      playerWidth_def playerHeight_def getBlock_def getBlockKey_def)

lemma headBlocked_feet_free:
  "list_all (\<lambda>(cx, cy, cz).
      getBlock (worldData headBlockedGame) (of_int \<lfloor>cx\<rfloor>) (of_int \<lfloor>cy\<rfloor>) (of_int \<lfloor>cz\<rfloor>) = AIR)
     (feetCorners (1 / 2) (2601 / 128) (1 / 2))"
  by (simp add: feetCorners_def collisionCorners_def headBlockedGame_def initialGame_def
      playerWidth_def playerHeight_def getBlock_def getBlockKey_def)

lemma headBlocked_groundY: "groundY headBlockedGame (1 / 16) = 104 / 5"
  by (simp add: groundY_def headBlocked_values playerHeight_def)

text \<open>
  C7, as stated, fails when only the head corners collide: the player falls, the
  candidate position collides with the single block of the world at \<open>(0, 20, 0)\<close>,
  whose top is at 21, and the camera ends at height 20.8, not at \<open>21 + playerHeight\<close>.
\<close>

theorem landing_head_counterexample:
  "isLocked headBlockedGame
   \<and> fallVelocity headBlockedGame (1 / 16) < 0
   \<and> checkCollision (worldData headBlockedGame) (resolvedX headBlockedGame (1 / 16))
        (candidateY headBlockedGame (1 / 16)) (resolvedZ headBlockedGame (1 / 16))
   \<and> dom (worldData headBlockedGame) = {(0, 20, 0)}
   \<and> cameraPosition (updatePlayer headBlockedGame (1 / 16)) = (1 / 2, 104 / 5, 1 / 2)
   \<and> (104 / 5 :: real) \<noteq> of_int (20 + 1) + playerHeight"
proof -
  have locked: "isLocked headBlockedGame"
    by (simp add: headBlockedGame_def)
  have falling: "fallVelocity headBlockedGame (1 / 16) < 0"
    by (simp add: headBlocked_values)
  have coll: "checkCollision (worldData headBlockedGame) (resolvedX headBlockedGame (1 / 16))
        (candidateY headBlockedGame (1 / 16)) (resolvedZ headBlockedGame (1 / 16))"
    by (simp add: headBlocked_values headBlocked_resolved headBlocked_collides)
  have only: "dom (worldData headBlockedGame) = {(0, 20, 0)}"
    by (simp add: headBlockedGame_def)
  have pos: "cameraPosition (updatePlayer headBlockedGame (1 / 16)) = (1 / 2, 104 / 5, 1 / 2)"
    by (simp add: updatePlayer_collided [OF locked falling coll] headBlocked_groundY
        headBlocked_resolved)
  have "(104 / 5 :: real) \<noteq> of_int (20 + 1) + playerHeight"
    by (simp add: playerHeight_def)
  with locked falling coll only pos show ?thesis
    by simp
qed

end
